theory Spec2Isabelle
  imports Complex_Main "HOL-Library.Word"
begin

section \<open>Numbers, errors and matrices\<close>

text \<open>
  The renderer of \<^verbatim>\<open>lib/utils/renderer.py\<close> works on numpy arrays of 64-bit floats and
  on 8-bit images. The entries of the matrices that the source builds are modelled as
  reals; the one place where the source leaves the finite numbers, the normalisation of
  a zero axis, is modelled by \<open>None\<close> (see \<open>unit_vector\<close>). 8-bit channels are \<open>8 word\<close>. Every exception the
  source or one of its libraries raises is a value of \<open>error\<close>.
\<close>

datatype error =
    ValueError_broadcast    \<comment> \<open>numpy: operands could not be broadcast together\<close>
  | ValueError_no_camera    \<comment> \<open>pyrender: Cannot render scene without a camera\<close>
  | AttributeError          \<comment> \<open>an attribute that the object does not have\<close>
  | NetworkXError           \<comment> \<open>scene graph: the node is not in the graph\<close>
  | IndexError              \<comment> \<open>an index outside an array\<close>
  | LoadError               \<comment> \<open>trimesh.load: the file cannot be read as a mesh\<close>
  | ExportError             \<comment> \<open>trimesh export: the file cannot be written\<close>

type_synonym u8 = "8 word"
type_synonym mat = "real list list"
type_synonym vec3 = "real \<times> real \<times> real"

text \<open>\<^verbatim>\<open>np.eye(n)\<close>, and the assignment \<^verbatim>\<open>P[i, j] = v\<close> (the source only assigns inside
  a 4 by 4 matrix, where the list update is the assignment).\<close>

definition eye :: "nat \<Rightarrow> mat" where
  "eye n = map (\<lambda>i. map (\<lambda>j. if i = j then 1 else 0) [0..<n]) [0..<n]"

definition set_item :: "mat \<Rightarrow> nat \<Rightarrow> nat \<Rightarrow> real \<Rightarrow> mat" where
  "set_item P i j v = P[i := (P ! i)[j := v]]"

section \<open>The weak-perspective camera\<close>

text \<open>Class \<^verbatim>\<open>WeakPerspectiveCamera\<close>: the fields of \<^verbatim>\<open>pyrender.Camera\<close> (znear, zfar,
  name) and its own scale and translation. Every call of the source builds it with
  \<^verbatim>\<open>scale=[sx, sy]\<close> and \<^verbatim>\<open>translation=[tx, ty]\<close>, hence the pairs.\<close>

record weak_perspective_camera =
  scale :: "real \<times> real"
  translation :: "real \<times> real"
  znear :: real
  zfar :: "real option"
  name :: "string option"

definition DEFAULT_Z_NEAR :: real where
  "DEFAULT_Z_NEAR = 5 / 100"

definition WeakPerspectiveCamera ::
  "real \<times> real \<Rightarrow> real \<times> real \<Rightarrow> real \<Rightarrow> real option \<Rightarrow> string option \<Rightarrow> weak_perspective_camera"
where
  "WeakPerspectiveCamera s t zn zf nm =
     \<lparr>scale = s, translation = t, znear = zn, zfar = zf, name = nm\<rparr>"

definition get_projection_matrix ::
  "weak_perspective_camera \<Rightarrow> nat option \<Rightarrow> nat option \<Rightarrow> mat"
where
  "get_projection_matrix self width height =
     (let P = eye 4;
          P = set_item P 0 0 (fst (scale self));
          P = set_item P 1 1 (snd (scale self));
          P = set_item P 0 3 (fst (translation self) * fst (scale self));
          P = set_item P 1 3 (- snd (translation self) * snd (scale self));
          P = set_item P 2 2 (- 1)
      in P)"

section \<open>Images and compositing\<close>

text \<open>A numpy array of rank 3 (rows, columns, channels): its shape and its entries. Only
  the entries at indices below the shape are entries of the array.\<close>

record 'a ndarray3 =
  dim0 :: nat
  dim1 :: nat
  dim2 :: nat
  elem :: "nat \<Rightarrow> nat \<Rightarrow> nat \<Rightarrow> 'a"

definition shape :: "'a ndarray3 \<Rightarrow> nat \<times> nat \<times> nat" where
  "shape A = (dim0 A, dim1 A, dim2 A)"

definition full :: "nat \<times> nat \<times> nat \<Rightarrow> 'a \<Rightarrow> 'a ndarray3" where
  "full shp v = \<lparr>dim0 = fst shp, dim1 = fst (snd shp), dim2 = snd (snd shp), elem = \<lambda>i j k. v\<rparr>"

definition ndarray_map :: "('a \<Rightarrow> 'b) \<Rightarrow> 'a ndarray3 \<Rightarrow> 'b ndarray3" where
  "ndarray_map f A =
     \<lparr>dim0 = dim0 A, dim1 = dim1 A, dim2 = dim2 A, elem = \<lambda>i j k. f (elem A i j k)\<rparr>"

text \<open>numpy's broadcasting of a binary operation: on each axis the extents are equal, or
  one of them is 1 and its single entry is repeated; anything else raises ValueError.\<close>

definition broadcast_dim :: "nat \<Rightarrow> nat \<Rightarrow> error + nat" where
  "broadcast_dim a b =
     (if a = b then Inr a else if a = 1 then Inr b else if b = 1 then Inr a
      else Inl ValueError_broadcast)"

definition bidx :: "nat \<Rightarrow> nat \<Rightarrow> nat" where
  "bidx d i = (if d = 1 then 0 else i)"

definition broadcast2 ::
  "('a \<Rightarrow> 'b \<Rightarrow> 'c) \<Rightarrow> 'a ndarray3 \<Rightarrow> 'b ndarray3 \<Rightarrow> error + 'c ndarray3"
where
  "broadcast2 f A B =
     (case broadcast_dim (dim0 A) (dim0 B) of
        Inl e \<Rightarrow> Inl e
      | Inr d0 \<Rightarrow>
         (case broadcast_dim (dim1 A) (dim1 B) of
            Inl e \<Rightarrow> Inl e
          | Inr d1 \<Rightarrow>
             (case broadcast_dim (dim2 A) (dim2 B) of
                Inl e \<Rightarrow> Inl e
              | Inr d2 \<Rightarrow>
                 Inr \<lparr>dim0 = d0, dim1 = d1, dim2 = d2,
                      elem = \<lambda>i j k.
                        f (elem A (bidx (dim0 A) i) (bidx (dim1 A) j) (bidx (dim2 A) k))
                          (elem B (bidx (dim0 B) i) (bidx (dim1 B) j) (bidx (dim2 B) k))\<rparr>)))"

text \<open>
  The compositing lines shared by \<^verbatim>\<open>render\<close>, \<^verbatim>\<open>render_obj\<close> and \<^verbatim>\<open>pop_and_render\<close>:
  \<^verbatim>\<open>
  valid_mask = (rgb[:, :, -1] > 0)[:, :, np.newaxis]
  output_img = rgb[:, :, :-1] * valid_mask + (1 - valid_mask) * img
  image = output_img.astype(np.uint8)
  \<close>
  \<^verbatim>\<open>rgb\<close> is the rasterizer's 8-bit output (the renderer runs with the RGBA flag, so
  it has four channels); \<^verbatim>\<open>img\<close> is the caller's image,
  an integer array (an 8-bit image is one with entries from 0 to 255).
  uint8 times bool stays uint8, \<^verbatim>\<open>1 - valid_mask\<close> is an integer array, the sum is an
  integer array, and \<^verbatim>\<open>astype(np.uint8)\<close> keeps the low eight bits.
\<close>

definition composite :: "u8 ndarray3 \<Rightarrow> int ndarray3 \<Rightarrow> error + u8 ndarray3" where
  "composite rgb img =
     (if dim2 rgb = 0 then Inl IndexError
      else
        let valid_mask = \<lparr>dim0 = dim0 rgb, dim1 = dim1 rgb, dim2 = 1,
                           elem = \<lambda>i j k. 0 < elem rgb i j (dim2 rgb - 1)\<rparr>;
            colour = \<lparr>dim0 = dim0 rgb, dim1 = dim1 rgb, dim2 = dim2 rgb - 1, elem = elem rgb\<rparr>
        in (case broadcast2 (\<lambda>c m. c * of_bool m) colour valid_mask of
              Inl e \<Rightarrow> Inl e
            | Inr a \<Rightarrow>
               (case broadcast2 (\<lambda>m v. m * v) (ndarray_map (\<lambda>m. 1 - of_bool m) valid_mask) img of
                  Inl e \<Rightarrow> Inl e
                | Inr b \<Rightarrow>
                   (case broadcast2 (\<lambda>x y. uint x + y) a b of
                      Inl e \<Rightarrow> Inl e
                    | Inr output_img \<Rightarrow> Inr (ndarray_map word_of_int output_img)))))"

text \<open>Concrete images for the examples: a 2 by 2 raster whose pixel (0,0) has alpha 128
  and whose other pixels have alpha 0, and backgrounds of 2 by 2, 1 by 1 and 3 by 3.\<close>

definition raster_2x2 :: "u8 ndarray3" where
  "raster_2x2 = \<lparr>dim0 = 2, dim1 = 2, dim2 = 4,
     elem = \<lambda>i j k. if i = 0 \<and> j = 0 then (if k = 3 then 128 else 200) else (if k = 3 then 0 else 90)\<rparr>"

definition background_2x2 :: "int ndarray3" where
  "background_2x2 = full (2, 2, 3) 7"

definition background_1x1 :: "int ndarray3" where
  "background_1x1 = full (1, 1, 3) 7"

definition background_3x3 :: "int ndarray3" where
  "background_3x3 = full (3, 3, 3) 7"

section \<open>Transformations and meshes\<close>

text \<open>
  The functions of \<^verbatim>\<open>trimesh.transformations\<close> that the source calls, over the reals.
  \<^verbatim>\<open>unit_vector\<close> divides the axis by its norm in place; for the zero axis numpy
  computes 0/0 and every component becomes NaN. The reals have no NaN (and in HOL
  \<open>x / 0 = 0\<close>), so that outcome is \<open>None\<close>: a vector, and then a matrix, with NaN in it.
\<close>

definition radians :: "real \<Rightarrow> real" where
  "radians deg = deg * pi / 180"

definition unit_vector :: "vec3 \<Rightarrow> vec3 option" where
  "unit_vector d =
     (case d of (x, y, z) \<Rightarrow>
        let n = sqrt (x * x + y * y + z * z)
        in if n = 0 then None else Some (x / n, y / n, z / n))"

definition identity_matrix :: mat where
  "identity_matrix = eye 4"

definition rotation_matrix :: "real \<Rightarrow> vec3 \<Rightarrow> mat option" where
  "rotation_matrix angle direction =
     (let sina = sin angle; cosa = cos angle
      in case unit_vector direction of
           None \<Rightarrow> None
         | Some (dx, dy, dz) \<Rightarrow>
             Some [[cosa + dx * dx * (1 - cosa), dx * dy * (1 - cosa) - dz * sina,
                      dx * dz * (1 - cosa) + dy * sina, 0],
                   [dy * dx * (1 - cosa) + dz * sina, cosa + dy * dy * (1 - cosa),
                      dy * dz * (1 - cosa) - dx * sina, 0],
                   [dz * dx * (1 - cosa) - dy * sina, dz * dy * (1 - cosa) + dx * sina,
                      cosa + dz * dz * (1 - cosa), 0],
                   [0, 0, 0, 1]])"

definition scale_matrix :: "real \<Rightarrow> vec3 \<Rightarrow> vec3 \<Rightarrow> mat option" where
  "scale_matrix factor origin direction =
     (case unit_vector direction of
        None \<Rightarrow> None
      | Some (dx, dy, dz) \<Rightarrow>
          (case origin of (ox, oy, oz) \<Rightarrow>
             let f = 1 - factor; t = f * (ox * dx + oy * dy + oz * dz)
             in Some [[1 - f * dx * dx, - f * dx * dy, - f * dx * dz, t * dx],
                      [- f * dy * dx, 1 - f * dy * dy, - f * dy * dz, t * dy],
                      [- f * dz * dx, - f * dz * dy, 1 - f * dz * dz, t * dz],
                      [0, 0, 0, 1]]))"

definition translation_matrix :: "vec3 \<Rightarrow> mat" where
  "translation_matrix direction =
     (case direction of (x, y, z) \<Rightarrow>
        [[1, 0, 0, x], [0, 1, 0, y], [0, 0, 1, z], [0, 0, 0, 1]])"

text \<open>A trimesh mesh is kept as the geometry it was built or loaded from together with
  the transforms applied to it, in the order of the \<^verbatim>\<open>apply_transform\<close> calls; the vertex
  arithmetic itself belongs to the library.\<close>

record trimesh =
  mesh_vertices :: "vec3 list"
  mesh_faces :: "(nat \<times> nat \<times> nat) list"
  applied :: "mat option list"

definition Trimesh :: "vec3 list \<Rightarrow> (nat \<times> nat \<times> nat) list \<Rightarrow> trimesh" where
  "Trimesh verts fs = \<lparr>mesh_vertices = verts, mesh_faces = fs, applied = []\<rparr>"

definition apply_transform :: "mat option \<Rightarrow> trimesh \<Rightarrow> trimesh" where
  "apply_transform M mesh = mesh\<lparr>applied := applied mesh @ [M]\<rparr>"

text \<open>\<^verbatim>\<open>pyrender.Mesh.from_trimesh\<close> with the material of the source (metallic factor 0.5,
  opaque, the caller's base colour with alpha 1). It reads the vertex normals of the
  mesh, which index the vertices by the face table: a face that names a vertex the mesh
  does not have raises IndexError (so does a body mesh built from too few vertices for
  the face table).\<close>

record pyrender_mesh =
  geometry :: trimesh
  baseColorFactor :: "real \<times> real \<times> real \<times> real"

definition covers :: "trimesh \<Rightarrow> bool" where
  "covers mesh =
     list_all (\<lambda>(a, b, c). a < length (mesh_vertices mesh) \<and> b < length (mesh_vertices mesh)
                    \<and> c < length (mesh_vertices mesh))
       (mesh_faces mesh)"

definition from_trimesh :: "trimesh \<Rightarrow> vec3 \<Rightarrow> error + pyrender_mesh" where
  "from_trimesh mesh colour =
     (if \<not> covers mesh then Inl IndexError
      else case colour of (r, g, b) \<Rightarrow> Inr \<lparr>geometry = mesh, baseColorFactor = (r, g, b, 1)\<rparr>)"

section \<open>The scene graph\<close>

text \<open>
  \<^verbatim>\<open>pyrender.Scene\<close> by its contract: \<^verbatim>\<open>add\<close> wraps the object in a new node and returns
  it, \<^verbatim>\<open>remove_node\<close> takes a node out and raises for a node that is not in the graph.
  A node is a Python object; its identity is the number \<open>node_id\<close>, drawn from the
  counter \<open>next_id\<close>. The scene keeps its camera nodes and a main camera: the first
  camera added, replaced by another remaining camera when it is removed (pyrender takes
  any one of its set; the model takes the oldest). Node poses are not modelled.
\<close>

record perspective_camera =
  yfov :: real
  p_znear :: real
  p_zfar :: "real option"
  aspectRatio :: "real option"

datatype camera = Weak weak_perspective_camera | Perspective perspective_camera

record point_light =
  color :: vec3
  intensity :: real

datatype entity = Light point_light | Mesh pyrender_mesh | Camera camera

record Node =
  node_id :: nat
  obj :: entity
  node_name :: "string option"

record Scene =
  nodes :: "Node set"
  next_id :: nat
  camera_nodes :: "Node list"
  main_camera_node :: "Node option"

definition Scene_init :: Scene where
  "Scene_init = \<lparr>nodes = {}, next_id = 0, camera_nodes = [], main_camera_node = None\<rparr>"

fun is_camera :: "entity \<Rightarrow> bool" where
  "is_camera (Camera c) = True"
| "is_camera e = False"

fun is_light :: "entity \<Rightarrow> bool" where
  "is_light (Light l) = True"
| "is_light e = False"

definition scene_add :: "Scene \<Rightarrow> entity \<Rightarrow> string option \<Rightarrow> Node \<times> Scene" where
  "scene_add sc ob nm =
     (let n = \<lparr>node_id = next_id sc, obj = ob, node_name = nm\<rparr>
      in (n, sc\<lparr>nodes := insert n (nodes sc),
                next_id := Suc (next_id sc),
                camera_nodes := (if is_camera ob then camera_nodes sc @ [n] else camera_nodes sc),
                main_camera_node :=
                  (if is_camera ob \<and> main_camera_node sc = None then Some n
                   else main_camera_node sc)\<rparr>))"

definition remove_node :: "Scene \<Rightarrow> Node \<Rightarrow> error + Scene" where
  "remove_node sc n =
     (if n \<notin> nodes sc then Inl NetworkXError
      else Inr (sc\<lparr>nodes := nodes sc - {n},
                   camera_nodes := removeAll n (camera_nodes sc),
                   main_camera_node :=
                     (if main_camera_node sc = Some n
                      then (case removeAll n (camera_nodes sc) of [] \<Rightarrow> None | c # cs \<Rightarrow> Some c)
                      else main_camera_node sc)\<rparr>))"

text \<open>The loops \<^verbatim>\<open>for n in self.object_nodes: self.scene.remove_node(n)\<close>: they stop at
  the first node that raises, with the earlier ones removed.\<close>

fun remove_nodes :: "Scene \<Rightarrow> Node list \<Rightarrow> (error + unit) \<times> Scene" where
  "remove_nodes sc [] = (Inr (), sc)"
| "remove_nodes sc (n # ns) =
     (case remove_node sc n of
        Inl e \<Rightarrow> (Inl e, sc)
      | Inr sc' \<Rightarrow> remove_nodes sc' ns)"

section \<open>The render session\<close>

text \<open>
  What the class \<^verbatim>\<open>Renderer\<close> takes from outside the source file: the rasterizer behind
  \<^verbatim>\<open>pyrender.OffscreenRenderer.render\<close> (the colour of each channel of each pixel, for
  a scene, the wireframe flag and a viewport), \<^verbatim>\<open>trimesh.load\<close>, the export of a mesh to
  a file (\<open>None\<close> when the file was written), and the face table
  \<^verbatim>\<open>get_smpl_faces()\<close>.
\<close>

record env =
  rasterize :: "Scene \<Rightarrow> bool \<Rightarrow> nat \<times> nat \<Rightarrow> nat \<Rightarrow> nat \<Rightarrow> nat \<Rightarrow> u8"
  trimesh_load :: "string \<Rightarrow> error + trimesh"
  mesh_export :: "trimesh \<Rightarrow> string \<Rightarrow> error option"
  get_smpl_faces :: "(nat \<times> nat \<times> nat) list"

text \<open>The offscreen render pass with the RGBA flag: pyrender raises ValueError when the
  scene has no main camera; otherwise the raster has viewport height by viewport width
  by four channels.\<close>

definition offscreen_render :: "env \<Rightarrow> nat \<times> nat \<Rightarrow> Scene \<Rightarrow> bool \<Rightarrow> error + u8 ndarray3" where
  "offscreen_render E viewport sc wire =
     (case main_camera_node sc of
        None \<Rightarrow> Inl ValueError_no_camera
      | Some c \<Rightarrow>
          Inr \<lparr>dim0 = snd viewport, dim1 = fst viewport, dim2 = 4,
               elem = rasterize E sc wire viewport\<rparr>)"

text \<open>The attributes of a \<^verbatim>\<open>Renderer\<close>. \<^verbatim>\<open>whiteBackground\<close> exists only when the
  constructor ran with \<^verbatim>\<open>renderOnWhite\<close>; \<open>None\<close> is the missing attribute.\<close>

record Renderer =
  resolution :: "nat \<times> nat"
  faces :: "(nat \<times> nat \<times> nat) list"
  orig_img :: bool
  wireframe :: bool
  renderer :: "nat \<times> nat"
  scene :: Scene
  cam_node :: "Node option"
  camera_pose :: mat
  object_nodes :: "Node list"
  human_nodes :: "Node list"
  whiteBackground :: "int ndarray3 option"

definition PointLight :: point_light where
  "PointLight = \<lparr>color = (1, 1, 1), intensity = 1\<rparr>"

definition Renderer_init :: "env \<Rightarrow> nat \<times> nat \<Rightarrow> bool \<Rightarrow> bool \<Rightarrow> bool \<Rightarrow> Renderer" where
  "Renderer_init E res orig wire renderOnWhite =
     (let sc = Scene_init;
          light = PointLight;
          (l1, sc) = scene_add sc (Light light) None;
          (l2, sc) = scene_add sc (Light light) None;
          (l3, sc) = scene_add sc (Light light) None
      in \<lparr>resolution = res,
          faces = get_smpl_faces E,
          orig_img = orig,
          wireframe = wire,
          renderer = (fst res, snd res),
          scene = sc,
          cam_node = None,
          camera_pose = eye 4,
          object_nodes = [],
          human_nodes = [],
          whiteBackground =
            (if renderOnWhite then Some (full (snd res, fst res, 3) 255) else None)\<rparr>)"

text \<open>The tail shared by \<^verbatim>\<open>render\<close> and \<^verbatim>\<open>render_obj\<close> once the mesh is built: add the
  mesh node and the camera node, render, composite, remove the two nodes. An exception
  leaves the session as it is at that line.\<close>

definition render_mesh ::
  "env \<Rightarrow> Renderer \<Rightarrow> int ndarray3 \<Rightarrow> pyrender_mesh \<Rightarrow> weak_perspective_camera
     \<Rightarrow> (error + u8 ndarray3) \<times> Renderer"
where
  "render_mesh E self img mesh cam =
     (let (mesh_node, sc) = scene_add (scene self) (Mesh mesh) (Some ''mesh'');
          self = self\<lparr>scene := sc\<rparr>;
          self = self\<lparr>camera_pose := eye 4\<rparr>;
          (cam_node', sc) = scene_add (scene self) (Camera (Weak cam)) None;
          self = self\<lparr>scene := sc\<rparr>
      in (case offscreen_render E (renderer self) (scene self) (wireframe self) of
            Inl e \<Rightarrow> (Inl e, self)
          | Inr rgb \<Rightarrow>
             (case composite rgb img of
                Inl e \<Rightarrow> (Inl e, self)
              | Inr image' \<Rightarrow>
                 (case remove_node (scene self) mesh_node of
                    Inl e \<Rightarrow> (Inl e, self)
                  | Inr sc1 \<Rightarrow>
                     (case remove_node sc1 cam_node' of
                        Inl e \<Rightarrow> (Inl e, self\<lparr>scene := sc1\<rparr>)
                      | Inr sc2 \<Rightarrow> (Inr image', self\<lparr>scene := sc2\<rparr>))))))"

text \<open>\<^verbatim>\<open>render\<close>: the body mesh is built, turned, exported when a file name is given,
  turned again when \<^verbatim>\<open>angle and axis\<close> holds, and wrapped for pyrender; each of
  these steps can raise before any node is added.\<close>

definition render ::
  "env \<Rightarrow> Renderer \<Rightarrow> int ndarray3 \<Rightarrow> vec3 list \<Rightarrow> real \<times> real \<times> real \<times> real
     \<Rightarrow> real option \<Rightarrow> vec3 option \<Rightarrow> string option \<Rightarrow> vec3
     \<Rightarrow> (error + u8 ndarray3) \<times> Renderer"
where
  "render E self img verts cam angle axis mesh_filename colour =
     (let mesh = Trimesh verts (faces self);
          Rx = rotation_matrix (radians 180) (1, 0, 0);
          mesh = apply_transform Rx mesh
      in (case (case mesh_filename of None \<Rightarrow> None | Some f \<Rightarrow> mesh_export E mesh f) of
            Some e \<Rightarrow> (Inl e, self)
          | None \<Rightarrow>
             (let mesh = (case (angle, axis) of
                            (Some a, Some ax) \<Rightarrow>
                              if a \<noteq> 0
                              then apply_transform (rotation_matrix (radians a) ax) mesh
                              else mesh
                          | _ \<Rightarrow> mesh)
              in (case cam of (sx, sy, tx, ty) \<Rightarrow>
                   (case from_trimesh mesh colour of
                      Inl e \<Rightarrow> (Inl e, self)
                    | Inr m \<Rightarrow>
                        render_mesh E self img m
                          (WeakPerspectiveCamera (sx, sy) (tx, ty) DEFAULT_Z_NEAR
                             (Some 1000) None))))))"

text \<open>The transforms of the auxiliary-object path. \<^verbatim>\<open>render_obj\<close> calls
  \<^verbatim>\<open>rotation_matrix\<close> whatever the angle; \<^verbatim>\<open>push_obj\<close> takes the identity when the
  angle is 0.\<close>

definition render_obj_rotation :: "real \<Rightarrow> vec3 \<Rightarrow> mat option" where
  "render_obj_rotation angle axis = rotation_matrix (radians angle) axis"

definition push_obj_rotation :: "real \<Rightarrow> vec3 \<Rightarrow> mat option" where
  "push_obj_rotation angle axis =
     (if angle = 0 then Some identity_matrix else rotation_matrix (radians angle) axis)"

definition object_transform :: "mat option \<Rightarrow> vec3 \<Rightarrow> vec3 \<Rightarrow> trimesh \<Rightarrow> trimesh" where
  "object_transform R offset scale3 mesh =
     (case scale3 of (s0, s1, s2) \<Rightarrow>
        let Sx = scale_matrix s0 (0, 0, 0) (1, 0, 0);
            Sy = scale_matrix s1 (0, 0, 0) (0, 1, 0);
            Sz = scale_matrix s2 (0, 0, 0) (0, 0, 1);
            T = translation_matrix offset;
            Rx = rotation_matrix pi (1, 0, 0);
            mesh = apply_transform Sx mesh;
            mesh = apply_transform Sy mesh;
            mesh = apply_transform Sz mesh;
            mesh = apply_transform R mesh;
            mesh = apply_transform (Some T) mesh;
            mesh = apply_transform Rx mesh
        in mesh)"

definition render_obj ::
  "env \<Rightarrow> Renderer \<Rightarrow> int ndarray3 \<Rightarrow> string \<Rightarrow> real \<times> real \<times> real \<times> real
     \<Rightarrow> vec3 \<Rightarrow> real \<Rightarrow> vec3 \<Rightarrow> vec3 \<Rightarrow> vec3 \<Rightarrow> (error + u8 ndarray3) \<times> Renderer"
where
  "render_obj E self img mesh_file cam offset angle axis scale3 colour =
     (case trimesh_load E mesh_file of
        Inl e \<Rightarrow> (Inl e, self)
      | Inr mesh \<Rightarrow>
         (let mesh = object_transform (render_obj_rotation angle axis) offset scale3 mesh
          in (case cam of (sx, sy, tx, ty) \<Rightarrow>
               (case from_trimesh mesh colour of
                  Inl e \<Rightarrow> (Inl e, self)
                | Inr m \<Rightarrow>
                    render_mesh E self img m
                      (WeakPerspectiveCamera (sx, sy) (tx, ty) DEFAULT_Z_NEAR
                         (Some 1000) None)))))"

definition push_cam :: "Renderer \<Rightarrow> real \<times> real \<times> real \<times> real \<Rightarrow> Renderer" where
  "push_cam self cam =
     (case cam of (sx, sy, tx, ty) \<Rightarrow>
        let camera = WeakPerspectiveCamera (sx, sy) (tx, ty) DEFAULT_Z_NEAR (Some 1000) None;
            self = self\<lparr>camera_pose := eye 4\<rparr>;
            (n, sc) = scene_add (scene self) (Camera (Weak camera)) None
        in self\<lparr>scene := sc, cam_node := Some n\<rparr>)"

definition push_default_cam :: "Renderer \<Rightarrow> Renderer" where
  "push_default_cam self =
     (let camera = \<lparr>yfov = pi / 3, p_znear = DEFAULT_Z_NEAR, p_zfar = None, aspectRatio = None\<rparr>;
          self = self\<lparr>camera_pose := eye 4\<rparr>;
          (n, sc) = scene_add (scene self) (Camera (Perspective camera)) None
      in self\<lparr>scene := sc, cam_node := Some n\<rparr>)"

definition push_human :: "Renderer \<Rightarrow> vec3 list \<Rightarrow> vec3 \<Rightarrow> (error + unit) \<times> Renderer" where
  "push_human self verts colour =
     (let mesh = Trimesh verts (faces self);
          Rx = rotation_matrix pi (1, 0, 0);
          mesh = apply_transform Rx mesh
      in (case from_trimesh mesh colour of
            Inl e \<Rightarrow> (Inl e, self)
          | Inr m \<Rightarrow>
             (let (n, sc) = scene_add (scene self) (Mesh m) None
              in (Inr (), self\<lparr>scene := sc, human_nodes := human_nodes self @ [n]\<rparr>))))"

definition push_obj ::
  "env \<Rightarrow> Renderer \<Rightarrow> string \<Rightarrow> vec3 \<Rightarrow> real \<Rightarrow> vec3 \<Rightarrow> vec3 \<Rightarrow> vec3
     \<Rightarrow> (error + unit) \<times> Renderer"
where
  "push_obj E self mesh_file offset angle axis scale3 colour =
     (case trimesh_load E mesh_file of
        Inl e \<Rightarrow> (Inl e, self)
      | Inr mesh \<Rightarrow>
         (let mesh = object_transform (push_obj_rotation angle axis) offset scale3 mesh
          in (case from_trimesh mesh colour of
                Inl e \<Rightarrow> (Inl e, self)
              | Inr m \<Rightarrow>
                 (let (n, sc) = scene_add (scene self) (Mesh m) None
                  in (Inr (), self\<lparr>scene := sc, object_nodes := object_nodes self @ [n]\<rparr>)))))"

definition pop_and_render ::
  "env \<Rightarrow> Renderer \<Rightarrow> int ndarray3 option \<Rightarrow> (error + u8 ndarray3) \<times> Renderer"
where
  "pop_and_render E self img =
     (case (case img of None \<Rightarrow> whiteBackground self | Some i \<Rightarrow> Some i) of
        None \<Rightarrow> (Inl AttributeError, self)
      | Some img \<Rightarrow>
         (case offscreen_render E (renderer self) (scene self) (wireframe self) of
            Inl e \<Rightarrow> (Inl e, self)
          | Inr rgb \<Rightarrow>
             (case composite rgb img of
                Inl e \<Rightarrow> (Inl e, self)
              | Inr image' \<Rightarrow>
                 (case cam_node self of
                    None \<Rightarrow> (Inl NetworkXError, self)
                  | Some c \<Rightarrow>
                     (case remove_node (scene self) c of
                        Inl e \<Rightarrow> (Inl e, self)
                      | Inr sc1 \<Rightarrow>
                         (case remove_nodes sc1 (object_nodes self) of
                            (Inl e, sc2) \<Rightarrow> (Inl e, self\<lparr>scene := sc2\<rparr>)
                          | (Inr u, sc2) \<Rightarrow>
                             (case remove_nodes sc2 (human_nodes self) of
                                (Inl e, sc3) \<Rightarrow> (Inl e, self\<lparr>scene := sc3\<rparr>)
                              | (Inr u, sc3) \<Rightarrow>
                                 (Inr image',
                                  self\<lparr>scene := sc3, cam_node := None,
                                       object_nodes := [], human_nodes := []\<rparr>))))))))"

section \<open>Sequences of calls\<close>

text \<open>A caller's use of a session: any of its methods, in any order, with any
  arguments. A call that raises leaves the session as the exception found it, and the
  caller goes on with it. \<^verbatim>\<open>screenspace_to_worldspace\<close> reads the session and assigns
  nothing: whatever it returns or raises, the session stays as it is.\<close>

datatype call =
    Render "int ndarray3" "vec3 list" "real \<times> real \<times> real \<times> real" "real option" "vec3 option"
      "string option" vec3
  | Render_obj "int ndarray3" string "real \<times> real \<times> real \<times> real" vec3 real vec3 vec3 vec3
  | Push_cam "real \<times> real \<times> real \<times> real"
  | Push_default_cam
  | Push_human "vec3 list" vec3
  | Push_obj string vec3 real vec3 vec3 vec3
  | Pop_and_render "int ndarray3 option"
  | Screenspace_to_worldspace real real

fun exec :: "env \<Rightarrow> Renderer \<Rightarrow> call \<Rightarrow> Renderer" where
  "exec E s (Render img verts cam angle axis mesh_filename colour) =
     snd (render E s img verts cam angle axis mesh_filename colour)"
| "exec E s (Render_obj img mesh_file cam offset angle axis scale3 colour) =
     snd (render_obj E s img mesh_file cam offset angle axis scale3 colour)"
| "exec E s (Push_cam cam) = push_cam s cam"
| "exec E s Push_default_cam = push_default_cam s"
| "exec E s (Push_human verts colour) = snd (push_human s verts colour)"
| "exec E s (Push_obj mesh_file offset angle axis scale3 colour) =
     snd (push_obj E s mesh_file offset angle axis scale3 colour)"
| "exec E s (Pop_and_render img) = snd (pop_and_render E s img)"
| "exec E s (Screenspace_to_worldspace x y) = s"

definition run :: "env \<Rightarrow> Renderer \<Rightarrow> call list \<Rightarrow> Renderer" where
  "run E s calls = foldl (exec E) s calls"

section \<open>Invariants of a session\<close>

text \<open>
  What holds of every scene and session that the constructor and the methods produce:
  node identities are below the counter (a new node is new), the scene's list of
  camera nodes holds exactly its camera nodes, the main camera is one of them and is
  missing only when there is none; the nodes the session tracks are in the scene, the
  tracked camera is a camera, the tracked objects and humans are meshes, and no node
  is tracked twice.
\<close>

fun is_mesh :: "entity \<Rightarrow> bool" where
  "is_mesh (Mesh m) = True"
| "is_mesh e = False"

definition scene_inv :: "Scene \<Rightarrow> bool" where
  "scene_inv sc \<longleftrightarrow>
     (\<forall>n \<in> nodes sc. node_id n < next_id sc)
     \<and> (\<forall>n. n \<in> set (camera_nodes sc) \<longleftrightarrow> n \<in> nodes sc \<and> is_camera (obj n))
     \<and> (main_camera_node sc = None \<longrightarrow> camera_nodes sc = [])
     \<and> (\<forall>c. main_camera_node sc = Some c \<longrightarrow> c \<in> set (camera_nodes sc))"

definition session_inv :: "Renderer \<Rightarrow> bool" where
  "session_inv s \<longleftrightarrow>
     scene_inv (scene s)
     \<and> (\<forall>c \<in> set_option (cam_node s). c \<in> nodes (scene s) \<and> is_camera (obj c))
     \<and> (\<forall>n \<in> set (object_nodes s @ human_nodes s). n \<in> nodes (scene s) \<and> is_mesh (obj n))
     \<and> distinct (object_nodes s @ human_nodes s)"

text \<open>The scene of a single-shot call while it renders (the mesh node and the camera
  node added), and the raster that the render pass returns for a scene.\<close>

definition armed_scene :: "Scene \<Rightarrow> pyrender_mesh \<Rightarrow> weak_perspective_camera \<Rightarrow> Scene" where
  "armed_scene sc mesh cam =
     snd (scene_add (snd (scene_add sc (Mesh mesh) (Some ''mesh''))) (Camera (Weak cam)) None)"

definition raster_of :: "env \<Rightarrow> Renderer \<Rightarrow> Scene \<Rightarrow> u8 ndarray3" where
  "raster_of E s sc =
     \<lparr>dim0 = snd (renderer s), dim1 = fst (renderer s), dim2 = 4,
      elem = rasterize E sc (wireframe s) (renderer s)\<rparr>"


text \<open>The session after a successful \<^verbatim>\<open>pop_and_render\<close> (with the scene that the
  removals leave), the background that \<^verbatim>\<open>pop_and_render\<close> composites against, and the
  three light nodes that the constructor adds.\<close>

definition cleared :: "Renderer \<Rightarrow> Scene \<Rightarrow> Renderer" where
  "cleared s sc = s\<lparr>scene := sc, cam_node := None, object_nodes := [], human_nodes := []\<rparr>"

definition effective_background :: "Renderer \<Rightarrow> int ndarray3 option \<Rightarrow> int ndarray3 option" where
  "effective_background s img = (case img of None \<Rightarrow> whiteBackground s | Some i \<Rightarrow> Some i)"

definition light_node :: "nat \<Rightarrow> Node" where
  "light_node i = \<lparr>node_id = i, obj = Light PointLight, node_name = None\<rparr>"

text \<open>What the constructor fixes for the life of a session: the resolution, the
  viewport of the offscreen renderer, the wireframe flag and the white background (or
  its absence).\<close>

definition session_consts :: "Renderer \<Rightarrow> (nat \<times> nat) \<times> (nat \<times> nat) \<times> bool \<times> int ndarray3 option" where
  "session_consts s = (resolution s, renderer s, wireframe s, whiteBackground s)"

text \<open>The calls that push a camera, and the calls that cannot leave a camera in the
  scene of a session of a given resolution: no push of a camera, and single-shot calls
  only with a background of the raster's shape (their compositing does not raise, so
  they remove the camera they added).\<close>

fun pushes_camera :: "call \<Rightarrow> bool" where
  "pushes_camera (Push_cam cam) = True"
| "pushes_camera Push_default_cam = True"
| "pushes_camera c = False"

fun leaves_no_camera :: "nat \<times> nat \<Rightarrow> call \<Rightarrow> bool" where
  "leaves_no_camera res (Push_cam cam) = False"
| "leaves_no_camera res Push_default_cam = False"
| "leaves_no_camera res (Render img verts cam angle axis mesh_filename colour) =
     (shape img = (snd res, fst res, 3))"
| "leaves_no_camera res (Render_obj img mesh_file cam offset angle axis scale3 colour) =
     (shape img = (snd res, fst res, 3))"
| "leaves_no_camera res c = True"

section \<open>Example sessions\<close>

text \<open>A concrete environment and concrete sessions, for the examples that follow the
  theorems: a face table of one triangle, three vertices that cover it, a rasterizer
  that paints pixel (0,0) with 128 in every channel and leaves every other pixel at 0
  (alpha included), one loadable mesh file and an export that always succeeds.\<close>

definition example_verts :: "vec3 list" where
  "example_verts = [(0, 0, 0), (1, 0, 0), (0, 1, 0)]"

definition example_env :: env where
  "example_env =
     \<lparr>rasterize = (\<lambda>sc wire viewport i j k. if i = 0 \<and> j = 0 then 128 else 0),
      trimesh_load = (\<lambda>file. if file = ''cube.obj''
                        then Inr (Trimesh [(0, 0, 0), (1, 0, 0), (0, 1, 0)] [(0, 1, 2)])
                        else Inl LoadError),
      mesh_export = (\<lambda>mesh file. None),
      get_smpl_faces = [(0, 1, 2)]\<rparr>"

text \<open>Two sessions of resolution 2 by 2 as the constructor leaves them, without and
  with \<^verbatim>\<open>renderOnWhite\<close>.\<close>

definition example_idle :: Renderer where
  "example_idle = Renderer_init example_env (2, 2) False False False"

definition example_white :: Renderer where
  "example_white = Renderer_init example_env (2, 2) False False True"

text \<open>The calls of the scenario of the specification (a camera, two humans and one
  object pushed), run on the session without and on the session with the white
  background.\<close>

definition example_calls :: "call list" where
  "example_calls =
     [Push_cam (1, 1, 0, 0),
      Push_human example_verts (1, 1, 9 / 10),
      Push_human example_verts (1, 1, 9 / 10),
      Push_obj ''cube.obj'' (0, 0, 0) 0 (1, 0, 0) (1, 1, 1) (3 / 10, 1, 3 / 10)]"

definition example_pushed :: Renderer where
  "example_pushed = run example_env example_idle example_calls"

definition example_pushed_white :: Renderer where
  "example_pushed_white = run example_env example_white example_calls"

text \<open>A session in which no camera was ever pushed and a \<^verbatim>\<open>render\<close> call with a 3 by 3
  background has raised.\<close>

definition example_failed_render :: Renderer where
  "example_failed_render =
     run example_env example_idle
       [Render background_3x3 example_verts (1, 1, 0, 0) None None None (1, 1, 9 / 10)]"

section \<open>Auxiliary facts\<close>

lemma eye_4: "eye 4 = [[1, 0, 0, 0], [0, 1, 0, 0], [0, 0, 1, 0], [0, 0, 0, 1]]"
  by (simp add: eye_def upt_rec)

lemma scene_add_simps:
  "fst (scene_add sc ob nm) = \<lparr>node_id = next_id sc, obj = ob, node_name = nm\<rparr>"
  "nodes (snd (scene_add sc ob nm)) = insert (fst (scene_add sc ob nm)) (nodes sc)"
  "next_id (snd (scene_add sc ob nm)) = Suc (next_id sc)"
  by (simp_all add: scene_add_def Let_def)

lemma scene_add_fresh:
  "scene_inv sc \<Longrightarrow> fst (scene_add sc ob nm) \<notin> nodes sc"
  by (auto simp: scene_inv_def scene_add_def Let_def)

lemma scene_add_inv:
  assumes "scene_inv sc"
  shows "scene_inv (snd (scene_add sc ob nm))"
proof -
  from assms [unfolded scene_inv_def]
  have ids: "\<forall>m \<in> nodes sc. node_id m < next_id sc"
    and cams: "\<forall>m. m \<in> set (camera_nodes sc) \<longleftrightarrow> m \<in> nodes sc \<and> is_camera (obj m)"
    and m1: "main_camera_node sc = None \<longrightarrow> camera_nodes sc = []"
    and m2: "\<forall>c. main_camera_node sc = Some c \<longrightarrow> c \<in> set (camera_nodes sc)"
    by blast+
  show ?thesis
  proof (cases "is_camera ob")
    case True
    with ids cams m1 m2 show ?thesis
      unfolding scene_inv_def scene_add_def Let_def
      by (cases "main_camera_node sc") (auto simp: less_Suc_eq)
  next
    case False
    with ids cams m1 m2 show ?thesis
      unfolding scene_inv_def scene_add_def Let_def
      by (auto simp: less_Suc_eq)
  qed
qed

lemma remove_node_eq:
  "n \<in> nodes sc \<Longrightarrow> remove_node sc n =
     Inr (sc\<lparr>nodes := nodes sc - {n}, camera_nodes := removeAll n (camera_nodes sc),
       main_camera_node := (if main_camera_node sc = Some n
         then (case removeAll n (camera_nodes sc) of [] \<Rightarrow> None | c # cs \<Rightarrow> Some c)
         else main_camera_node sc)\<rparr>)"
  by (simp add: remove_node_def)

lemma remove_node_mem:
  "remove_node sc n = Inr sc' \<Longrightarrow> n \<in> nodes sc"
  by (cases "n \<in> nodes sc") (simp_all add: remove_node_def)

lemma remove_node_inv:
  assumes inv: "scene_inv sc" and rm: "remove_node sc n = Inr sc'"
  shows "scene_inv sc'"
proof -
  define cs where "cs = removeAll n (camera_nodes sc)"
  from inv [unfolded scene_inv_def]
  have ids: "\<forall>m \<in> nodes sc. node_id m < next_id sc"
    and cams: "\<forall>m. m \<in> set (camera_nodes sc) \<longleftrightarrow> m \<in> nodes sc \<and> is_camera (obj m)"
    and m1: "main_camera_node sc = None \<longrightarrow> camera_nodes sc = []"
    and m2: "\<forall>c. main_camera_node sc = Some c \<longrightarrow> c \<in> set (camera_nodes sc)"
    by blast+
  from rm have mem: "n \<in> nodes sc" by (rule remove_node_mem)
  from rm remove_node_eq [OF mem]
  have f: "nodes sc' = nodes sc - {n}" "next_id sc' = next_id sc" "camera_nodes sc' = cs"
    "main_camera_node sc' = (if main_camera_node sc = Some n
         then (case cs of [] \<Rightarrow> None | c # cs \<Rightarrow> Some c) else main_camera_node sc)"
    by (auto simp: cs_def)
  have setcs: "set cs = set (camera_nodes sc) - {n}" by (simp add: cs_def)
  have c1: "\<forall>m \<in> nodes sc'. node_id m < next_id sc'"
    using ids by (simp add: f)
  have c2: "\<forall>m. m \<in> set (camera_nodes sc') \<longleftrightarrow> m \<in> nodes sc' \<and> is_camera (obj m)"
    unfolding f setcs using cams by blast
  have c3: "main_camera_node sc' = None \<longrightarrow> camera_nodes sc' = []"
  proof (cases "main_camera_node sc = Some n")
    case True
    then show ?thesis unfolding f by (cases cs) simp_all
  next
    case False
    with m1 m2 show ?thesis unfolding f by (simp add: cs_def)
  qed
  have c4: "\<forall>c. main_camera_node sc' = Some c \<longrightarrow> c \<in> set (camera_nodes sc')"
  proof (cases "main_camera_node sc = Some n")
    case True
    then show ?thesis unfolding f by (cases cs) simp_all
  next
    case False
    with m2 show ?thesis unfolding f setcs by auto
  qed
  from c1 c2 c3 c4 show ?thesis unfolding scene_inv_def by blast
qed

lemma remove_node_nodes:
  "remove_node sc n = Inr sc' \<Longrightarrow> nodes sc' = nodes sc - {n}"
  by (auto simp: remove_node_def split: if_splits)

lemma remove_node_ok:
  "n \<in> nodes sc \<Longrightarrow> \<exists>sc'. remove_node sc n = Inr sc'"
  by (simp add: remove_node_def)

lemma remove_nodes_ok:
  "distinct ns \<Longrightarrow> set ns \<subseteq> nodes sc \<Longrightarrow>
     \<exists>sc'. remove_nodes sc ns = (Inr (), sc') \<and> nodes sc' = nodes sc - set ns"
proof (induction ns arbitrary: sc)
  case Nil
  then show ?case by simp
next
  case (Cons n ns)
  from Cons.prems obtain sc1 where r: "remove_node sc n = Inr sc1"
    using remove_node_ok [of n sc] by auto
  then have n1: "nodes sc1 = nodes sc - {n}" by (rule remove_node_nodes)
  with Cons.prems have "distinct ns" "set ns \<subseteq> nodes sc1" by auto
  from Cons.IH [OF this] obtain sc' where
    "remove_nodes sc1 ns = (Inr (), sc')" "nodes sc' = nodes sc1 - set ns" by blast
  with r n1 show ?case by auto
qed

lemma remove_nodes_inv:
  "scene_inv sc \<Longrightarrow> remove_nodes sc ns = (r, sc') \<Longrightarrow> scene_inv sc'"
proof (induction ns arbitrary: sc)
  case Nil
  then show ?case by simp
next
  case (Cons n ns)
  show ?case
  proof (cases "remove_node sc n")
    case (Inl e)
    with Cons.prems show ?thesis by simp
  next
    case (Inr sc1)
    with Cons.prems have "scene_inv sc1" "remove_nodes sc1 ns = (r, sc')"
      by (auto dest: remove_node_inv)
    then show ?thesis by (rule Cons.IH)
  qed
qed

lemma render_obj_rotation_nonzero_axis:
  "axis \<noteq> (0, 0, 0) \<Longrightarrow> render_obj_rotation 0 axis = Some identity_matrix"
  by (cases axis)
    (auto simp: render_obj_rotation_def rotation_matrix_def unit_vector_def radians_def
      identity_matrix_def eye_4 Let_def add_nonneg_eq_0_iff)

lemma add_remove_scene:
  assumes inv: "scene_inv sc"
  shows "\<exists>sc3. remove_node (armed_scene sc mesh cam) (fst (scene_add sc (Mesh mesh) (Some ''mesh''))) = Inr sc3
     \<and> remove_node sc3 (fst (scene_add (snd (scene_add sc (Mesh mesh) (Some ''mesh''))) (Camera (Weak cam)) None))
        = Inr (sc\<lparr>next_id := Suc (Suc (next_id sc))\<rparr>)"
proof -
  let ?m = "\<lparr>node_id = next_id sc, obj = Mesh mesh, node_name = Some ''mesh''\<rparr>"
  let ?c = "\<lparr>node_id = Suc (next_id sc), obj = Camera (Weak cam), node_name = None\<rparr>"
  from inv [unfolded scene_inv_def]
  have ids: "\<forall>m \<in> nodes sc. node_id m < next_id sc"
    and cams: "\<forall>m. m \<in> set (camera_nodes sc) \<longleftrightarrow> m \<in> nodes sc \<and> is_camera (obj m)"
    and m1: "main_camera_node sc = None \<longrightarrow> camera_nodes sc = []"
    and m2: "\<forall>c. main_camera_node sc = Some c \<longrightarrow> c \<in> set (camera_nodes sc)"
    by blast+
  from ids have fm: "?m \<notin> nodes sc" and fc: "?c \<notin> nodes sc" by auto
  with cams have cm: "?m \<notin> set (camera_nodes sc)" and cc: "?c \<notin> set (camera_nodes sc)" by auto
  have mc: "?m \<noteq> ?c" by simp
  from m2 cm cc have mm: "main_camera_node sc \<noteq> Some ?m" "main_camera_node sc \<noteq> Some ?c" by auto
  have n: "insert ?c (insert ?m (nodes sc)) - {?m} - {?c} = nodes sc"
    using fm fc by auto
  show ?thesis
  proof (cases "main_camera_node sc")
    case None
    with m1 have "camera_nodes sc = []" by simp
    with None n show ?thesis
      by (simp add: armed_scene_def scene_add_def remove_node_def Let_def)
  next
    case (Some d)
    with mm cm cc n show ?thesis
      by (simp add: armed_scene_def scene_add_def remove_node_def Let_def)
  qed
qed

lemma armed_scene_main: "main_camera_node (armed_scene sc mesh cam) \<noteq> None"
  by (simp add: armed_scene_def scene_add_def Let_def)

lemma armed_scene_inv: "scene_inv sc \<Longrightarrow> scene_inv (armed_scene sc mesh cam)"
  by (simp add: armed_scene_def scene_add_inv)

lemma armed_scene_nodes: "nodes sc \<subseteq> nodes (armed_scene sc mesh cam)"
  by (auto simp: armed_scene_def scene_add_def Let_def)

lemma render_mesh_cases:
  assumes inv: "scene_inv (scene s)"
  shows "render_mesh E s img mesh cam =
     (case composite (raster_of E s (armed_scene (scene s) mesh cam)) img of
        Inl e \<Rightarrow> (Inl e, s\<lparr>scene := armed_scene (scene s) mesh cam, camera_pose := eye 4\<rparr>)
      | Inr image' \<Rightarrow>
          (Inr image',
           s\<lparr>scene := (scene s)\<lparr>next_id := Suc (Suc (next_id (scene s)))\<rparr>,
             camera_pose := eye 4\<rparr>))"
proof -
  let ?sc2 = "armed_scene (scene s) mesh cam"
  from add_remove_scene [OF inv, of mesh cam] obtain sc3 where
    r1: "remove_node ?sc2 (fst (scene_add (scene s) (Mesh mesh) (Some ''mesh''))) = Inr sc3"
    and r2: "remove_node sc3
        (fst (scene_add (snd (scene_add (scene s) (Mesh mesh) (Some ''mesh''))) (Camera (Weak cam)) None))
        = Inr ((scene s)\<lparr>next_id := Suc (Suc (next_id (scene s)))\<rparr>)"
    by blast
  obtain c where main: "main_camera_node ?sc2 = Some c"
    using armed_scene_main [of "scene s" mesh cam] by auto
  show ?thesis
    unfolding render_mesh_def
    by (simp add: split_beta Let_def armed_scene_def [symmetric] offscreen_render_def main
        raster_of_def r1 r2 split: sum.split)
qed

lemma Renderer_init_scene:
  "scene (Renderer_init E res orig wire row) =
     \<lparr>nodes = {\<lparr>node_id = 0, obj = Light PointLight, node_name = None\<rparr>,
               \<lparr>node_id = 1, obj = Light PointLight, node_name = None\<rparr>,
               \<lparr>node_id = 2, obj = Light PointLight, node_name = None\<rparr>},
      next_id = 3, camera_nodes = [], main_camera_node = None\<rparr>"
  by (auto simp: Renderer_init_def scene_add_def Scene_init_def Let_def numeral_3_eq_3)

lemma Renderer_init_fields:
  "cam_node (Renderer_init E res orig wire row) = None"
  "object_nodes (Renderer_init E res orig wire row) = []"
  "human_nodes (Renderer_init E res orig wire row) = []"
  "renderer (Renderer_init E res orig wire row) = res"
  "resolution (Renderer_init E res orig wire row) = res"
  "wireframe (Renderer_init E res orig wire row) = wire"
  "whiteBackground (Renderer_init E res orig wire row) =
     (if row then Some (full (snd res, fst res, 3) 255) else None)"
  by (simp_all add: Renderer_init_def Let_def split_beta)

lemma Renderer_init_inv: "session_inv (Renderer_init E res orig wire row)"
  by (auto simp: session_inv_def scene_inv_def Renderer_init_scene Renderer_init_fields)

lemma composite_same_shape:
  assumes "dim2 rgb = 4" and "shape img = (dim0 rgb, dim1 rgb, 3)"
  shows "\<exists>image'. composite rgb img = Inr image'"
  using assms
  by (simp add: composite_def broadcast2_def broadcast_dim_def ndarray_map_def shape_def)



lemma session_inv_main:
  assumes "session_inv s" and "cam_node s = Some c"
  shows "main_camera_node (scene s) \<noteq> None"
proof -
  from assms have "c \<in> nodes (scene s)" "is_camera (obj c)" "scene_inv (scene s)"
    by (auto simp: session_inv_def)
  then have "c \<in> set (camera_nodes (scene s))"
    and "main_camera_node (scene s) = None \<longrightarrow> camera_nodes (scene s) = []"
    unfolding scene_inv_def by blast+
  then show ?thesis by auto
qed

lemma is_camera_not_mesh: "is_camera e \<Longrightarrow> \<not> is_mesh e"
  by (cases e) simp_all

lemma pop_removals:
  assumes inv: "session_inv s" and cam: "cam_node s = Some c"
  shows "\<exists>sc1 sc2 sc3. remove_node (scene s) c = Inr sc1
      \<and> remove_nodes sc1 (object_nodes s) = (Inr (), sc2)
      \<and> remove_nodes sc2 (human_nodes s) = (Inr (), sc3)
      \<and> nodes sc3 = nodes (scene s) - ({c} \<union> set (object_nodes s) \<union> set (human_nodes s))
      \<and> scene_inv sc3"
proof -
  from inv cam have c: "c \<in> nodes (scene s)" "is_camera (obj c)"
    and sinv: "scene_inv (scene s)"
    and tr: "\<forall>n \<in> set (object_nodes s @ human_nodes s). n \<in> nodes (scene s) \<and> is_mesh (obj n)"
    and d: "distinct (object_nodes s @ human_nodes s)"
    by (auto simp: session_inv_def)
  from c tr have cn: "c \<notin> set (object_nodes s @ human_nodes s)"
    using is_camera_not_mesh by blast
  from c obtain sc1 where r1: "remove_node (scene s) c = Inr sc1"
    using remove_node_ok by blast
  then have n1: "nodes sc1 = nodes (scene s) - {c}" by (rule remove_node_nodes)
  from sinv r1 have i1: "scene_inv sc1" by (rule remove_node_inv)
  from d have "distinct (object_nodes s)" by simp
  moreover from tr cn n1 have "set (object_nodes s) \<subseteq> nodes sc1" by auto
  ultimately obtain sc2 where r2: "remove_nodes sc1 (object_nodes s) = (Inr (), sc2)"
    and n2: "nodes sc2 = nodes sc1 - set (object_nodes s)"
    using remove_nodes_ok by blast
  from i1 r2 have i2: "scene_inv sc2" by (rule remove_nodes_inv)
  from d have "distinct (human_nodes s)" by simp
  moreover from tr cn n1 n2 d have "set (human_nodes s) \<subseteq> nodes sc2" by auto
  ultimately obtain sc3 where r3: "remove_nodes sc2 (human_nodes s) = (Inr (), sc3)"
    and n3: "nodes sc3 = nodes sc2 - set (human_nodes s)"
    using remove_nodes_ok by blast
  from i2 r3 have i3: "scene_inv sc3" by (rule remove_nodes_inv)
  from n1 n2 n3 have "nodes sc3 = nodes (scene s) - ({c} \<union> set (object_nodes s) \<union> set (human_nodes s))"
    by auto
  with r1 r2 r3 i3 show ?thesis by blast
qed

lemma pop_and_render_cases:
  assumes inv: "session_inv s" and cam: "cam_node s = Some c"
  shows "\<exists>sc3. scene_inv sc3
      \<and> nodes sc3 = nodes (scene s) - ({c} \<union> set (object_nodes s) \<union> set (human_nodes s))
      \<and> pop_and_render E s img =
          (case effective_background s img of
             None \<Rightarrow> (Inl AttributeError, s)
           | Some bg \<Rightarrow>
              (case composite (raster_of E s (scene s)) bg of
                 Inl e \<Rightarrow> (Inl e, s)
               | Inr image' \<Rightarrow> (Inr image', cleared s sc3)))"
proof -
  from pop_removals [OF inv cam] obtain sc1 sc2 sc3 where
    r: "remove_node (scene s) c = Inr sc1"
       "remove_nodes sc1 (object_nodes s) = (Inr (), sc2)"
       "remove_nodes sc2 (human_nodes s) = (Inr (), sc3)"
    and n: "nodes sc3 = nodes (scene s) - ({c} \<union> set (object_nodes s) \<union> set (human_nodes s))"
    and i: "scene_inv sc3"
    by blast
  from session_inv_main [OF inv cam] obtain m where m: "main_camera_node (scene s) = Some m"
    by auto
  have "pop_and_render E s img =
          (case effective_background s img of
             None \<Rightarrow> (Inl AttributeError, s)
           | Some bg \<Rightarrow>
              (case composite (raster_of E s (scene s)) bg of
                 Inl e \<Rightarrow> (Inl e, s)
               | Inr image' \<Rightarrow> (Inr image', cleared s sc3)))"
    by (simp add: pop_and_render_def effective_background_def offscreen_render_def m raster_of_def
        cam r cleared_def split: option.split sum.split)
  with i n show ?thesis by blast
qed

lemma pop_and_render_no_cam_node:
  "cam_node s = None \<Longrightarrow> snd (pop_and_render E s img) = s"
  by (simp add: pop_and_render_def split: option.split sum.split)

lemma session_inv_camera_pose [simp]:
  "session_inv (s\<lparr>camera_pose := x\<rparr>) = session_inv s"
  by (simp add: session_inv_def)

lemma session_inv_scene_mono:
  assumes "session_inv s" and "scene_inv sc" and "nodes (scene s) \<subseteq> nodes sc"
  shows "session_inv (s\<lparr>scene := sc\<rparr>)"
  using assms by (auto simp: session_inv_def)

lemma scene_inv_next_id:
  "scene_inv sc \<Longrightarrow> scene_inv (sc\<lparr>next_id := Suc (Suc (next_id sc))\<rparr>)"
  by (auto simp: scene_inv_def less_Suc_eq)

lemma session_inv_push:
  assumes inv: "session_inv s"
  shows "is_camera ob \<Longrightarrow>
           session_inv (s\<lparr>scene := snd (scene_add (scene s) ob nm),
                          cam_node := Some (fst (scene_add (scene s) ob nm))\<rparr>)"
    and "is_mesh ob \<Longrightarrow>
           session_inv (s\<lparr>scene := snd (scene_add (scene s) ob nm),
                          human_nodes := human_nodes s @ [fst (scene_add (scene s) ob nm)]\<rparr>)"
    and "is_mesh ob \<Longrightarrow>
           session_inv (s\<lparr>scene := snd (scene_add (scene s) ob nm),
                          object_nodes := object_nodes s @ [fst (scene_add (scene s) ob nm)]\<rparr>)"
proof -
  let ?n = "fst (scene_add (scene s) ob nm)" and ?sc = "snd (scene_add (scene s) ob nm)"
  from inv have sinv: "scene_inv (scene s)" by (simp add: session_inv_def)
  then have i: "scene_inv ?sc" by (rule scene_add_inv)
  have nn: "nodes ?sc = insert ?n (nodes (scene s))" by (rule scene_add_simps)
  have ob: "obj ?n = ob" by (simp add: scene_add_simps)
  from sinv have fresh: "?n \<notin> nodes (scene s)" by (rule scene_add_fresh)
  from inv have tr: "\<forall>n \<in> set (object_nodes s @ human_nodes s). n \<in> nodes (scene s) \<and> is_mesh (obj n)"
    and d: "distinct (object_nodes s @ human_nodes s)"
    and cm: "\<forall>c \<in> set_option (cam_node s). c \<in> nodes (scene s) \<and> is_camera (obj c)"
    by (simp_all add: session_inv_def)
  from tr fresh have nt: "?n \<notin> set (object_nodes s)" "?n \<notin> set (human_nodes s)" by auto
  show "is_camera ob \<Longrightarrow> session_inv (s\<lparr>scene := ?sc, cam_node := Some ?n\<rparr>)"
    using i nn ob tr d unfolding session_inv_def by auto
  show "is_mesh ob \<Longrightarrow> session_inv (s\<lparr>scene := ?sc, human_nodes := human_nodes s @ [?n]\<rparr>)"
    using i nn ob tr d cm nt unfolding session_inv_def by auto
  show "is_mesh ob \<Longrightarrow> session_inv (s\<lparr>scene := ?sc, object_nodes := object_nodes s @ [?n]\<rparr>)"
    using i nn ob tr d cm nt unfolding session_inv_def by auto
qed

lemma render_mesh_inv:
  assumes "session_inv s"
  shows "session_inv (snd (render_mesh E s img mesh cam))"
proof -
  from assms have sinv: "scene_inv (scene s)" by (simp add: session_inv_def)
  have a: "session_inv (s\<lparr>scene := armed_scene (scene s) mesh cam\<rparr>)"
    using assms armed_scene_inv [OF sinv] armed_scene_nodes by (rule session_inv_scene_mono)
  have b: "session_inv (s\<lparr>scene := (scene s)\<lparr>next_id := Suc (Suc (next_id (scene s)))\<rparr>\<rparr>)"
    using assms scene_inv_next_id [OF sinv] by (rule session_inv_scene_mono) simp
  from a b show ?thesis
    unfolding render_mesh_cases [OF sinv] by (simp split: sum.split)
qed

lemma render_mesh_nodes:
  assumes "scene_inv (scene s)"
  shows "nodes (scene s) \<subseteq> nodes (scene (snd (render_mesh E s img mesh cam)))"
  using armed_scene_nodes [of "scene s" mesh cam]
  unfolding render_mesh_cases [OF assms] by (simp split: sum.split)

lemma pop_and_render_inv:
  assumes "session_inv s"
  shows "session_inv (snd (pop_and_render E s img))"
proof (cases "cam_node s")
  case None
  with assms show ?thesis by (simp add: pop_and_render_no_cam_node)
next
  case (Some c)
  from pop_and_render_cases [OF assms Some, of E img] obtain sc3 where
    i: "scene_inv sc3"
    and p: "pop_and_render E s img =
          (case effective_background s img of
             None \<Rightarrow> (Inl AttributeError, s)
           | Some bg \<Rightarrow>
              (case composite (raster_of E s (scene s)) bg of
                 Inl e \<Rightarrow> (Inl e, s)
               | Inr image' \<Rightarrow> (Inr image', cleared s sc3)))"
    by blast
  from i have "session_inv (cleared s sc3)"
    by (simp add: session_inv_def cleared_def)
  with assms show ?thesis
    unfolding p by (simp split: option.split sum.split)
qed

lemma pop_and_render_keeps_lights:
  assumes inv: "session_inv s" and n: "n \<in> nodes (scene s)" and l: "is_light (obj n)"
  shows "n \<in> nodes (scene (snd (pop_and_render E s img)))"
proof (cases "cam_node s")
  case None
  with n show ?thesis by (simp add: pop_and_render_no_cam_node)
next
  case (Some c)
  from pop_and_render_cases [OF inv Some, of E img] obtain sc3 where
    ns: "nodes sc3 = nodes (scene s) - ({c} \<union> set (object_nodes s) \<union> set (human_nodes s))"
    and p: "pop_and_render E s img =
          (case effective_background s img of
             None \<Rightarrow> (Inl AttributeError, s)
           | Some bg \<Rightarrow>
              (case composite (raster_of E s (scene s)) bg of
                 Inl e \<Rightarrow> (Inl e, s)
               | Inr image' \<Rightarrow> (Inr image', cleared s sc3)))"
    by blast
  from inv Some have "is_camera (obj c)"
    and "\<forall>m \<in> set (object_nodes s) \<union> set (human_nodes s). is_mesh (obj m)"
    by (auto simp: session_inv_def)
  moreover from l have "\<not> is_mesh (obj n)" "\<not> is_camera (obj n)"
    by (cases "obj n"; simp)+
  ultimately have "n \<notin> {c} \<union> set (object_nodes s) \<union> set (human_nodes s)"
    by blast
  with n ns have "n \<in> nodes sc3" by simp
  with n show ?thesis
    unfolding p by (simp add: cleared_def split: option.split sum.split)
qed

lemma exec_inv:
  assumes "session_inv s"
  shows "session_inv (exec E s call)"
proof (cases call)
  case (Render img verts cam angle axis mesh_filename colour)
  with assms show ?thesis
    by (simp add: render_def Let_def render_mesh_inv split: prod.split option.split sum.split)
next
  case (Render_obj img fname cam offset deg ax scale3 colour)
  with assms show ?thesis
    by (simp add: render_obj_def Let_def render_mesh_inv split: prod.split sum.split)
next
  case (Push_cam cam)
  from assms have "session_inv (s\<lparr>camera_pose := eye 4\<rparr>)" by simp
  from session_inv_push(1) [OF this] Push_cam show ?thesis
    by (simp add: push_cam_def Let_def split_beta)
next
  case Push_default_cam
  from assms have "session_inv (s\<lparr>camera_pose := eye 4\<rparr>)" by simp
  from session_inv_push(1) [OF this] Push_default_cam show ?thesis
    by (simp add: push_default_cam_def Let_def split_beta)
next
  case (Push_human verts colour)
  with assms session_inv_push(2) [OF assms] show ?thesis
    by (simp add: push_human_def Let_def split_beta split: sum.split)
next
  case (Push_obj fname offset deg ax scale3 colour)
  with assms session_inv_push(3) [OF assms] show ?thesis
    by (simp add: push_obj_def Let_def split_beta split: sum.split)
next
  case (Pop_and_render img)
  with assms show ?thesis by (simp add: pop_and_render_inv)
next
  case (Screenspace_to_worldspace x y)
  with assms show ?thesis by simp
qed

lemma exec_keeps_lights:
  assumes inv: "session_inv s" and n: "n \<in> nodes (scene s)" and l: "is_light (obj n)"
  shows "n \<in> nodes (scene (exec E s call))"
proof -
  from inv have sinv: "scene_inv (scene s)" by (simp add: session_inv_def)
  have k: "n \<in> nodes (scene (snd (render_mesh E s img mesh cam)))" for img mesh cam
    using render_mesh_nodes [OF sinv] n by blast
  show ?thesis
  proof (cases call)
    case (Render img verts cam angle axis mesh_filename colour)
    with n show ?thesis
      by (simp add: render_def Let_def k split: prod.split option.split sum.split)
  next
    case (Render_obj img fname cam offset deg ax scale3 colour)
    with n show ?thesis
      by (simp add: render_obj_def Let_def k split: prod.split sum.split)
  next
    case (Push_cam cam)
    with n show ?thesis
      by (simp add: push_cam_def Let_def split_beta scene_add_simps)
  next
    case Push_default_cam
    with n show ?thesis
      by (simp add: push_default_cam_def Let_def split_beta scene_add_simps)
  next
    case (Push_human verts colour)
    with n show ?thesis
      by (simp add: push_human_def Let_def split_beta scene_add_simps split: sum.split)
  next
    case (Push_obj fname offset deg ax scale3 colour)
    with n show ?thesis
      by (simp add: push_obj_def Let_def split_beta scene_add_simps split: sum.split)
  next
    case (Pop_and_render img)
    with pop_and_render_keeps_lights [OF inv n l] show ?thesis by simp
  next
    case (Screenspace_to_worldspace x y)
    with n show ?thesis by simp
  qed
qed

lemma run_inv_lights:
  assumes "session_inv s" and "n \<in> nodes (scene s)" and "is_light (obj n)"
  shows "session_inv (run E s calls) \<and> n \<in> nodes (scene (run E s calls))"
  using assms unfolding run_def
proof (induction calls arbitrary: s)
  case Nil
  then show ?case by simp
next
  case (Cons call calls)
  from Cons.prems have "session_inv (exec E s call)" "n \<in> nodes (scene (exec E s call))"
    by (simp_all add: exec_inv exec_keeps_lights)
  from Cons.IH [OF this Cons.prems(3)] show ?case by simp
qed

lemma render_mesh_consts:
  "session_consts (snd (render_mesh E s img mesh cam)) = session_consts s"
  by (simp add: render_mesh_def session_consts_def split_beta Let_def split: sum.split)

lemma pop_and_render_consts:
  "session_consts (snd (pop_and_render E s img)) = session_consts s"
  by (simp add: pop_and_render_def session_consts_def split: option.split sum.split prod.split)

lemma exec_consts: "session_consts (exec E s call) = session_consts s"
proof (cases call)
  case (Render img verts cam angle axis mesh_filename colour)
  then show ?thesis
    by (simp add: render_def Let_def render_mesh_consts split: prod.split option.split sum.split)
next
  case (Render_obj img fname cam offset deg ax scale3 colour)
  then show ?thesis
    by (simp add: render_obj_def Let_def render_mesh_consts split: prod.split sum.split)
next
  case (Push_cam cam)
  then show ?thesis by (simp add: push_cam_def Let_def split_beta session_consts_def)
next
  case Push_default_cam
  then show ?thesis by (simp add: push_default_cam_def Let_def split_beta session_consts_def)
next
  case (Push_human verts colour)
  then show ?thesis
    by (simp add: push_human_def Let_def split_beta session_consts_def split: sum.split)
next
  case (Push_obj fname offset deg ax scale3 colour)
  then show ?thesis
    by (simp add: push_obj_def Let_def split_beta session_consts_def split: sum.split)
next
  case (Pop_and_render img)
  then show ?thesis by (simp add: pop_and_render_consts)
next
  case (Screenspace_to_worldspace x y)
  then show ?thesis by simp
qed

lemma run_consts: "session_consts (run E s calls) = session_consts s"
  unfolding run_def by (induction calls arbitrary: s) (simp_all add: exec_consts)

lemma run_inv: "session_inv s \<Longrightarrow> session_inv (run E s calls)"
  unfolding run_def by (induction calls arbitrary: s) (simp_all add: exec_inv)

lemma example_pushed_nodes:
  "cam_node (run example_env (Renderer_init example_env (2, 2) False False row) example_calls) \<noteq> None"
  "length (human_nodes (run example_env (Renderer_init example_env (2, 2) False False row) example_calls)) = 2"
  "length (object_nodes (run example_env (Renderer_init example_env (2, 2) False False row) example_calls)) = 1"
  by (simp_all add: run_def example_calls_def push_cam_def push_human_def push_obj_def
      example_env_def example_verts_def Let_def split_beta Renderer_init_def
      from_trimesh_def covers_def Trimesh_def apply_transform_def object_transform_def
      split: prod.split)

lemma covers_apply_transform [simp]: "covers (apply_transform M mesh) = covers mesh"
  by (simp add: covers_def apply_transform_def)

lemma covers_object_transform [simp]: "covers (object_transform R offset scale3 mesh) = covers mesh"
  by (cases scale3) (simp add: object_transform_def Let_def)

lemma covers_Trimesh:
  "covers (Trimesh verts fs)
     = list_all (\<lambda>(a, b, c). a < length verts \<and> b < length verts \<and> c < length verts) fs"
  by (simp add: covers_def Trimesh_def)

lemma render_mesh_cam_node:
  "cam_node (snd (render_mesh E s img mesh cam)) = cam_node s"
  by (simp add: render_mesh_def split_beta Let_def split: sum.split)

lemma exec_cam_node_None:
  assumes "cam_node s = None" and "\<not> pushes_camera call"
  shows "cam_node (exec E s call) = None"
proof (cases call)
  case (Render img verts cam angle axis mesh_filename colour)
  with assms show ?thesis
    by (simp add: render_def Let_def render_mesh_cam_node split: prod.split option.split sum.split)
next
  case (Render_obj img fname cam offset deg ax scale3 colour)
  with assms show ?thesis
    by (simp add: render_obj_def Let_def render_mesh_cam_node split: prod.split sum.split)
next
  case (Push_human verts colour)
  with assms show ?thesis
    by (simp add: push_human_def Let_def split_beta split: sum.split)
next
  case (Push_obj fname offset deg ax scale3 colour)
  with assms show ?thesis
    by (simp add: push_obj_def Let_def split_beta split: sum.split)
next
  case (Pop_and_render img)
  with assms show ?thesis by (simp add: pop_and_render_no_cam_node)
qed (use assms in simp_all)

lemma run_cam_node_None:
  assumes "cam_node s = None" and "\<forall>c \<in> set calls. \<not> pushes_camera c"
  shows "cam_node (run E s calls) = None"
  using assms unfolding run_def
  by (induction calls arbitrary: s) (simp_all add: exec_cam_node_None)

lemma render_mesh_no_camera:
  assumes inv: "scene_inv (scene s)" and m: "main_camera_node (scene s) = None"
    and shp: "shape img = (snd (renderer s), fst (renderer s), 3)"
  shows "main_camera_node (scene (snd (render_mesh E s img mesh cam))) = None"
proof -
  from composite_same_shape [of "raster_of E s (armed_scene (scene s) mesh cam)" img] shp
  obtain image' where "composite (raster_of E s (armed_scene (scene s) mesh cam)) img = Inr image'"
    by (auto simp: raster_of_def)
  with m show ?thesis
    unfolding render_mesh_cases [OF inv] by simp
qed

lemma pop_and_render_no_cam_node_cases:
  assumes "cam_node s = None" and "effective_background s img = Some bg"
  shows "pop_and_render E s img =
     (Inl (if main_camera_node (scene s) = None then ValueError_no_camera
           else (case composite (raster_of E s (scene s)) bg of
                   Inl e \<Rightarrow> e
                 | Inr image' \<Rightarrow> NetworkXError)), s)"
  using assms
  by (auto simp: pop_and_render_def effective_background_def offscreen_render_def raster_of_def
      split: option.splits sum.splits)

lemma exec_no_camera:
  assumes inv: "session_inv s" and r: "renderer s = res"
    and m: "main_camera_node (scene s) = None" and c: "leaves_no_camera res call"
  shows "main_camera_node (scene (exec E s call)) = None"
proof -
  from inv have sinv: "scene_inv (scene s)" by (simp add: session_inv_def)
  from inv m have cn: "cam_node s = None"
    using session_inv_main [of s] by (cases "cam_node s") auto
  show ?thesis
  proof (cases call)
    case (Render img verts cam angle axis mesh_filename colour)
    with c r have "shape img = (snd (renderer s), fst (renderer s), 3)" by simp
    from render_mesh_no_camera [OF sinv m this] m Render show ?thesis
      by (simp add: render_def Let_def split: prod.split option.split sum.split)
  next
    case (Render_obj img fname cam offset deg ax scale3 colour)
    with c r have "shape img = (snd (renderer s), fst (renderer s), 3)" by simp
    from render_mesh_no_camera [OF sinv m this] m Render_obj show ?thesis
      by (simp add: render_obj_def Let_def split: prod.split sum.split)
  next
    case (Push_human verts colour)
    with m show ?thesis
      by (simp add: push_human_def Let_def split_beta scene_add_def split: sum.split)
  next
    case (Push_obj fname offset deg ax scale3 colour)
    with m show ?thesis
      by (simp add: push_obj_def Let_def split_beta scene_add_def split: sum.split)
  next
    case (Pop_and_render img)
    with m cn show ?thesis by (simp add: pop_and_render_no_cam_node)
  qed (use c m in simp_all)
qed

lemma run_no_camera:
  assumes "session_inv s" and "renderer s = res" and "main_camera_node (scene s) = None"
    and "\<forall>c \<in> set calls. leaves_no_camera res c"
  shows "main_camera_node (scene (run E s calls)) = None"
  using assms unfolding run_def
proof (induction calls arbitrary: s)
  case Nil
  then show ?case by simp
next
  case (Cons call calls)
  have "session_inv (exec E s call)" using Cons.prems(1) by (rule exec_inv)
  moreover have "renderer (exec E s call) = res"
    using exec_consts [of E s call] Cons.prems(2) by (simp add: session_consts_def)
  moreover have "main_camera_node (scene (exec E s call)) = None"
    using Cons.prems by (simp add: exec_no_camera)
  moreover have "\<forall>c \<in> set calls. leaves_no_camera res c" using Cons.prems(4) by simp
  ultimately show ?case using Cons.IH by simp
qed

lemma example_render_fails:
  "render example_env example_idle background_3x3 example_verts (1, 1, 0, 0) None None None
       (1, 1, 9 / 10)
     = (Inl ValueError_broadcast,
        example_idle\<lparr>scene := armed_scene (scene example_idle)
            \<lparr>geometry = apply_transform (rotation_matrix (radians 180) (1, 0, 0))
                           (Trimesh example_verts (faces example_idle)),
             baseColorFactor = (1, 1, 9 / 10, 1)\<rparr>
            (WeakPerspectiveCamera (1, 1) (0, 0) DEFAULT_Z_NEAR (Some 1000) None),
          camera_pose := eye 4\<rparr>)"
proof -
  let ?m = "\<lparr>geometry = apply_transform (rotation_matrix (radians 180) (1, 0, 0))
                           (Trimesh example_verts (faces example_idle)),
             baseColorFactor = (1, 1, 9 / 10, 1)\<rparr>"
  let ?sc = "armed_scene (scene example_idle) ?m
               (WeakPerspectiveCamera (1, 1) (0, 0) DEFAULT_Z_NEAR (Some 1000) None)"
  have inv: "scene_inv (scene example_idle)"
    using Renderer_init_inv [of example_env "(2, 2)" False False False]
    by (simp add: example_idle_def session_inv_def)
  have f: "from_trimesh (apply_transform (rotation_matrix (radians 180) (1, 0, 0))
             (Trimesh example_verts (faces example_idle))) (1, 1, 9 / 10) = Inr ?m"
    by (simp add: from_trimesh_def covers_Trimesh example_verts_def example_idle_def
        Renderer_init_def example_env_def split_beta Let_def)
  have c: "composite (raster_of example_env example_idle ?sc) background_3x3 = Inl ValueError_broadcast"
    by (simp add: composite_def broadcast2_def broadcast_dim_def ndarray_map_def raster_of_def
        example_idle_def Renderer_init_fields background_3x3_def full_def)
  show ?thesis
    by (simp add: render_def Let_def f render_mesh_cases [OF inv] c)
qed

lemma pop_and_render_no_cam_node_raises:
  "cam_node s = None \<Longrightarrow> \<exists>e. pop_and_render E s img = (Inl e, s)"
  by (simp add: pop_and_render_def split: option.split sum.split)

lemma pop_and_render_raise_keeps:
  assumes inv: "session_inv s" and r: "pop_and_render E s img = (Inl e, s')"
  shows "s' = s"
proof (cases "cam_node s")
  case None
  from pop_and_render_no_cam_node [OF None, of E img] r show ?thesis by simp
next
  case (Some c)
  from pop_and_render_cases [OF inv Some, of E img] obtain sc3 where
    p: "pop_and_render E s img =
          (case effective_background s img of
             None \<Rightarrow> (Inl AttributeError, s)
           | Some bg \<Rightarrow>
              (case composite (raster_of E s (scene s)) bg of
                 Inl e \<Rightarrow> (Inl e, s)
               | Inr image' \<Rightarrow> (Inr image', cleared s sc3)))"
    by blast
  from r show ?thesis
    unfolding p by (auto split: option.splits sum.splits)
qed

lemma run_init_renderer:
  "renderer (run E (Renderer_init E' res orig wire row) calls) = res"
  "whiteBackground (run E (Renderer_init E' res orig wire row) calls)
     = (if row then Some (full (snd res, fst res, 3) 255) else None)"
  using run_consts [of E "Renderer_init E' res orig wire row" calls]
  by (simp_all add: session_consts_def Renderer_init_fields)

lemma example_raster:
  "raster_of example_env s sc
     = \<lparr>dim0 = snd (renderer s), dim1 = fst (renderer s), dim2 = 4,
        elem = (\<lambda>i j k. if i = 0 \<and> j = 0 then 128 else 0)\<rparr>"
  by (simp add: raster_of_def example_env_def)

lemma example_composite_white:
  "composite \<lparr>dim0 = 2, dim1 = 2, dim2 = 4, elem = (\<lambda>i j k. if i = 0 \<and> j = 0 then 128 else 0)\<rparr>
       (full (2, 2, 3) 255)
     = Inr image'
   \<Longrightarrow> shape image' = (2, 2, 3) \<and> elem image' 0 0 0 = 128 \<and> elem image' 1 1 0 = 255"
  by (auto simp: composite_def broadcast2_def broadcast_dim_def ndarray_map_def full_def
      shape_def bidx_def Let_def)

section \<open>Properties\<close>

text \<open>
  C1. For every scale pair and translation pair the projection matrix of the
  weak-perspective camera is the identity except for the entries (0,0) = scaleX,
  (1,1) = scaleY, (0,3) = transX * scaleX, (1,3) = - transY * scaleY and (2,2) = -1;
  replacing the stored znear and zfar (and the width and height passed in) changes
  nothing.
\<close>

theorem get_projection_matrix_entries:
  "get_projection_matrix (WeakPerspectiveCamera (sx, sy) (tx, ty) zn zf nm) w h =
     [[sx, 0, 0, tx * sx],
      [0, sy, 0, - ty * sy],
      [0, 0, - 1, 0],
      [0, 0, 0, 1]]
   \<and> get_projection_matrix (c\<lparr>znear := zn', zfar := zf'\<rparr>) w' h' = get_projection_matrix c w h"
  by (simp add: get_projection_matrix_def WeakPerspectiveCamera_def set_item_def eye_4)

theorem get_projection_matrix_entries_witness:
  "get_projection_matrix (WeakPerspectiveCamera (2, 3) (5, 7) (1 / 2) (Some 1000) None)
       (Some 224) (Some 224) =
     [[2, 0, 0, 10], [0, 3, 0, - 21], [0, 0, - 1, 0], [0, 0, 0, 1]]"
  using get_projection_matrix_entries [of 2 3 5 7 "1 / 2" "Some 1000" None "Some 224" "Some 224"]
  by simp

text \<open>
  C2. For an RGBA raster and a background of the same height and width (three channels),
  compositing succeeds and each output channel is the raster's own value where the
  pixel's alpha is above 0 and the background's value cast to 8 bits elsewhere: a hard
  threshold, never a blend (so also at alpha = 128).
\<close>

theorem composite_hard_threshold:
  assumes "dim2 rgb = 4" and "dim0 img = dim0 rgb" and "dim1 img = dim1 rgb" and "dim2 img = 3"
  shows "\<exists>image. composite rgb img = Inr image
           \<and> shape image = (dim0 rgb, dim1 rgb, 3)
           \<and> (\<forall>i j k. i < dim0 rgb \<and> j < dim1 rgb \<and> k < 3 \<longrightarrow>
                 elem image i j k =
                   (if 0 < elem rgb i j 3 then elem rgb i j k else word_of_int (elem img i j k)))"
  using assms
  by (simp add: composite_def broadcast2_def broadcast_dim_def ndarray_map_def shape_def bidx_def)

theorem composite_hard_threshold_witness:
  "\<exists>image. composite raster_2x2 background_2x2 = Inr image
      \<and> elem raster_2x2 0 0 3 = 128
      \<and> elem image 0 0 0 = 200 \<and> elem image 0 0 1 = 200 \<and> elem image 0 0 2 = 200
      \<and> elem image 1 0 2 = 7"
proof -
  from composite_hard_threshold [of raster_2x2 background_2x2]
  obtain image where c: "composite raster_2x2 background_2x2 = Inr image"
    and e: "\<forall>i j k. i < dim0 raster_2x2 \<and> j < dim1 raster_2x2 \<and> k < 3 \<longrightarrow>
              elem image i j k =
                (if 0 < elem raster_2x2 i j 3 then elem raster_2x2 i j k
                 else word_of_int (elem background_2x2 i j k))"
    by (auto simp: raster_2x2_def background_2x2_def full_def)
  have "elem image 0 0 0 = 200" "elem image 0 0 1 = 200" "elem image 0 0 2 = 200"
       "elem image 1 0 2 = 7"
    by (simp_all add: e raster_2x2_def background_2x2_def full_def)
  with c show ?thesis by (simp add: raster_2x2_def)
qed

text \<open>
  C3 (as stated, refuted). With a camera, two humans (three vertices each, covering the
  face table) and one object pushed, a \<^verbatim>\<open>pop_and_render\<close> call whose background is 3 by 3
  for a 2 by 2 raster raises in the compositing line, before the removal lines: the
  session is exactly as it was, camera, humans and object still pushed.
\<close>

theorem pop_and_render_clears_counterexample:
  "cam_node example_pushed \<noteq> None
   \<and> length (human_nodes example_pushed) = 2
   \<and> length (object_nodes example_pushed) = 1
   \<and> pop_and_render example_env example_pushed (Some background_3x3)
       = (Inl ValueError_broadcast, example_pushed)"
proof -
  have inv: "session_inv example_pushed"
    unfolding example_pushed_def example_idle_def by (rule run_inv [OF Renderer_init_inv])
  have n: "cam_node example_pushed \<noteq> None" "length (human_nodes example_pushed) = 2"
    "length (object_nodes example_pushed) = 1"
    unfolding example_pushed_def example_idle_def by (rule example_pushed_nodes)+
  then obtain c where c: "cam_node example_pushed = Some c" by auto
  have r: "renderer example_pushed = (2, 2)"
    unfolding example_pushed_def example_idle_def by (rule run_init_renderer)
  have "composite (raster_of example_env example_pushed (scene example_pushed)) background_3x3
      = Inl ValueError_broadcast"
    by (simp add: example_raster r composite_def broadcast2_def broadcast_dim_def ndarray_map_def
        background_3x3_def full_def)
  with pop_and_render_cases [OF inv c, of example_env "Some background_3x3"] n
  show ?thesis by (auto simp: effective_background_def)
qed

text \<open>
  C3 (amended). In a session that a sequence of calls has led to from the constructor
  and in which a camera is pushed: a \<^verbatim>\<open>pop_and_render\<close> call that returns an image has
  removed from the scene exactly the camera node and the nodes of \<^verbatim>\<open>object_nodes\<close> and
  \<^verbatim>\<open>human_nodes\<close>, and leaves both lists empty and no current camera, as in a new
  session; a call that raises leaves the session as it was; and the call returns an image
  whenever the background it composites against has the height and width of the
  session's resolution and three channels.
\<close>

theorem pop_and_render_clears:
  assumes "s = run E (Renderer_init E res orig wire row) calls" and "cam_node s = Some c"
  shows "(\<forall>image' s'. pop_and_render E s img = (Inr image', s')
            \<longrightarrow> nodes (scene s') = nodes (scene s) - ({c} \<union> set (object_nodes s) \<union> set (human_nodes s))
                \<and> human_nodes s' = [] \<and> object_nodes s' = [] \<and> cam_node s' = None
                \<and> (human_nodes s', object_nodes s', cam_node s')
                    = (human_nodes (Renderer_init E res orig wire row),
                       object_nodes (Renderer_init E res orig wire row),
                       cam_node (Renderer_init E res orig wire row)))
       \<and> (\<forall>e s'. pop_and_render E s img = (Inl e, s') \<longrightarrow> s' = s)
       \<and> (\<forall>bg. effective_background s img = Some bg \<and> shape bg = (snd res, fst res, 3)
            \<longrightarrow> (\<exists>image' s'. pop_and_render E s img = (Inr image', s')))"
proof -
  from assms(1) have inv: "session_inv s" by (simp add: run_inv [OF Renderer_init_inv])
  from assms(1) have r: "renderer s = res" by (simp add: run_init_renderer)
  from pop_and_render_cases [OF inv assms(2), of E img] obtain sc3 where
    n: "nodes sc3 = nodes (scene s) - ({c} \<union> set (object_nodes s) \<union> set (human_nodes s))"
    and p: "pop_and_render E s img =
          (case effective_background s img of
             None \<Rightarrow> (Inl AttributeError, s)
           | Some bg \<Rightarrow>
              (case composite (raster_of E s (scene s)) bg of
                 Inl e \<Rightarrow> (Inl e, s)
               | Inr image' \<Rightarrow> (Inr image', cleared s sc3)))"
    by blast
  have a: "\<forall>image' s'. pop_and_render E s img = (Inr image', s')
            \<longrightarrow> nodes (scene s') = nodes (scene s) - ({c} \<union> set (object_nodes s) \<union> set (human_nodes s))
                \<and> human_nodes s' = [] \<and> object_nodes s' = [] \<and> cam_node s' = None
                \<and> (human_nodes s', object_nodes s', cam_node s')
                    = (human_nodes (Renderer_init E res orig wire row),
                       object_nodes (Renderer_init E res orig wire row),
                       cam_node (Renderer_init E res orig wire row))"
    unfolding p using n
    by (auto simp: cleared_def Renderer_init_fields split: option.splits sum.splits)
  have b: "\<forall>e s'. pop_and_render E s img = (Inl e, s') \<longrightarrow> s' = s"
    using pop_and_render_raise_keeps [OF inv] by blast
  have c: "\<forall>bg. effective_background s img = Some bg \<and> shape bg = (snd res, fst res, 3)
            \<longrightarrow> (\<exists>image' s'. pop_and_render E s img = (Inr image', s'))"
  proof (intro allI impI)
    fix bg
    assume h: "effective_background s img = Some bg \<and> shape bg = (snd res, fst res, 3)"
    with composite_same_shape [of "raster_of E s (scene s)" bg] r
    obtain image' where "composite (raster_of E s (scene s)) bg = Inr image'"
      by (auto simp: raster_of_def)
    with h show "\<exists>image' s'. pop_and_render E s img = (Inr image', s')"
      unfolding p by simp
  qed
  from a b c show ?thesis by blast
qed

theorem pop_and_render_clears_witness:
  "cam_node example_pushed_white \<noteq> None
   \<and> length (human_nodes example_pushed_white) = 2
   \<and> length (object_nodes example_pushed_white) = 1
   \<and> (\<exists>image' s'. pop_and_render example_env example_pushed_white (Some background_2x2) = (Inr image', s')
        \<and> human_nodes s' = [] \<and> object_nodes s' = [] \<and> cam_node s' = None)"
proof -
  have n: "cam_node example_pushed_white \<noteq> None" "length (human_nodes example_pushed_white) = 2"
    "length (object_nodes example_pushed_white) = 1"
    unfolding example_pushed_white_def example_white_def by (rule example_pushed_nodes)+
  then obtain c where c: "cam_node example_pushed_white = Some c" by auto
  have e: "effective_background example_pushed_white (Some background_2x2) = Some background_2x2
      \<and> shape background_2x2 = (snd (2::nat, 2::nat), fst (2::nat, 2::nat), 3)"
    by (simp add: effective_background_def background_2x2_def full_def shape_def)
  from pop_and_render_clears [of example_pushed_white example_env "(2, 2)" False False True
      example_calls c "Some background_2x2"] c e n
  show ?thesis
    unfolding example_pushed_white_def example_white_def by blast
qed

text \<open>
  C4 (as stated, refuted). In a session in which no camera was ever pushed, a \<^verbatim>\<open>render\<close>
  call with a 3 by 3 background has raised and left its camera node in the scene. A
  \<^verbatim>\<open>pop_and_render\<close> call with a 2 by 2 background then renders and composites, and
  raises networkx's error at the removal of the camera node \<open>None\<close>, not the error of a
  missing camera.
\<close>

theorem pop_and_render_without_camera_counterexample:
  "cam_node example_failed_render = None
   \<and> pop_and_render example_env example_failed_render (Some background_2x2)
       = (Inl NetworkXError, example_failed_render)"
proof -
  have cn: "cam_node example_failed_render = None"
    unfolding example_failed_render_def example_idle_def
    by (rule run_cam_node_None) (simp_all add: Renderer_init_fields)
  have s: "example_failed_render
      = snd (render example_env example_idle background_3x3 example_verts (1, 1, 0, 0) None None None
              (1, 1, 9 / 10))"
    by (simp add: example_failed_render_def run_def)
  have m: "main_camera_node (scene example_failed_render) \<noteq> None"
    unfolding s example_render_fails by (simp add: armed_scene_main)
  have r: "renderer example_failed_render = (2, 2)"
    unfolding example_failed_render_def example_idle_def by (rule run_init_renderer)
  have "\<exists>image'. composite (raster_of example_env example_failed_render (scene example_failed_render))
      background_2x2 = Inr image'"
    by (rule composite_same_shape)
      (simp_all add: raster_of_def r background_2x2_def full_def shape_def)
  with pop_and_render_no_cam_node_cases [OF cn, of "Some background_2x2" background_2x2 example_env]
    m cn
  show ?thesis by (auto simp: effective_background_def)
qed

text \<open>
  C4 (amended). In a session that calls other than \<^verbatim>\<open>push_cam\<close> and
  \<^verbatim>\<open>push_default_cam\<close> have led to from the constructor, no camera is current and
  \<^verbatim>\<open>pop_and_render\<close> never returns an image: it raises and leaves the session as it
  was. With a background to composite against, the exception is pyrender's ValueError
  for a scene without a camera when the scene holds no camera, which is the case when
  every single-shot call so far had a background of the session's height and width and
  three channels; when an earlier single-shot call has left its camera behind, the
  exception is that of the compositing, or else networkx's error at the removal of the
  camera node \<open>None\<close>.
\<close>

theorem pop_and_render_without_camera:
  assumes "s = run E (Renderer_init E res orig wire row) calls"
    and "\<forall>c \<in> set calls. \<not> pushes_camera c"
  shows "cam_node s = None
       \<and> (\<exists>e. pop_and_render E s img = (Inl e, s))
       \<and> (\<forall>bg. effective_background s img = Some bg
            \<longrightarrow> pop_and_render E s img
                  = (Inl (if main_camera_node (scene s) = None then ValueError_no_camera
                          else (case composite (raster_of E s (scene s)) bg of
                                  Inl e \<Rightarrow> e | Inr image' \<Rightarrow> NetworkXError)), s))
       \<and> ((\<forall>c \<in> set calls. leaves_no_camera res c) \<longrightarrow> main_camera_node (scene s) = None)"
proof -
  have cn: "cam_node s = None"
    unfolding assms(1) by (rule run_cam_node_None) (simp_all add: Renderer_init_fields assms(2))
  have m: "(\<forall>c \<in> set calls. leaves_no_camera res c) \<longrightarrow> main_camera_node (scene s) = None"
    unfolding assms(1)
    by (auto intro!: run_no_camera simp: Renderer_init_inv Renderer_init_fields Renderer_init_scene)
  from cn m pop_and_render_no_cam_node_raises [OF cn, of E img]
    pop_and_render_no_cam_node_cases [OF cn, of img _ E]
  show ?thesis by blast
qed

theorem pop_and_render_without_camera_witness:
  "pop_and_render example_env
       (run example_env example_white
          [Push_human example_verts (1, 1, 9 / 10),
           Render background_2x2 example_verts (1, 1, 0, 0) None None None (1, 1, 9 / 10)])
       (Some background_2x2)
     = (Inl ValueError_no_camera,
        run example_env example_white
          [Push_human example_verts (1, 1, 9 / 10),
           Render background_2x2 example_verts (1, 1, 0, 0) None None None (1, 1, 9 / 10)])"
proof -
  let ?calls = "[Push_human example_verts (1, 1, 9 / 10),
           Render background_2x2 example_verts (1, 1, 0, 0) None None None (1, 1, 9 / 10)]"
  have a: "\<forall>c \<in> set ?calls. \<not> pushes_camera c" by simp
  have b: "\<forall>c \<in> set ?calls. leaves_no_camera (2, 2) c"
    by (simp add: background_2x2_def full_def shape_def)
  have e: "effective_background (run example_env example_white ?calls) (Some background_2x2)
      = Some background_2x2"
    by (simp add: effective_background_def)
  from pop_and_render_without_camera [of "run example_env example_white ?calls" example_env
      "(2, 2)" False False True ?calls "Some background_2x2", OF _ a] b e
  show ?thesis
    unfolding example_white_def by auto
qed

text \<open>
  C5. At angle 0 \<^verbatim>\<open>push_obj\<close> takes the identity for every axis. \<^verbatim>\<open>render_obj\<close> has no
  such guard: with the zero axis it normalises by a zero norm and the rotation is not
  the identity but a matrix of NaN (for every other axis it is the identity, see
  \<open>render_obj_rotation_nonzero_axis\<close>).
\<close>

theorem object_rotation_zero_angle:
  "push_obj_rotation 0 axis = Some identity_matrix
   \<and> render_obj_rotation 0 (0, 0, 0) = None"
  by (simp add: push_obj_rotation_def render_obj_rotation_def rotation_matrix_def unit_vector_def)

text \<open>
  C7 (as stated, refuted). The source has no dimension check of its own: the shapes meet
  in numpy's broadcasting. A 1 by 1 background against a 2 by 2 raster has different
  spatial dimensions, and compositing returns a 2 by 2 image.
\<close>

theorem composite_mismatch_counterexample:
  "(dim0 background_1x1, dim1 background_1x1) \<noteq> (dim0 raster_2x2, dim1 raster_2x2)
   \<and> map_sum id shape (composite raster_2x2 background_1x1) = Inr (2, 2, 3)"
  by (simp add: composite_def broadcast2_def broadcast_dim_def ndarray_map_def shape_def
      raster_2x2_def background_1x1_def full_def)

text \<open>
  C7 (amended). For an RGBA raster and a three-channel background: when on some spatial
  axis the two extents differ and neither is 1, compositing fails with numpy's
  broadcasting ValueError and produces no image; in every other case (extents equal, or
  one of them 1) it produces an image.
\<close>

theorem composite_mismatch_broadcast:
  assumes "dim2 rgb = 4" and "dim2 img = 3"
  shows "((dim0 rgb \<noteq> dim0 img \<and> dim0 rgb \<noteq> 1 \<and> dim0 img \<noteq> 1)
          \<or> (dim1 rgb \<noteq> dim1 img \<and> dim1 rgb \<noteq> 1 \<and> dim1 img \<noteq> 1)
          \<longrightarrow> composite rgb img = Inl ValueError_broadcast)
       \<and> (\<not> ((dim0 rgb \<noteq> dim0 img \<and> dim0 rgb \<noteq> 1 \<and> dim0 img \<noteq> 1)
          \<or> (dim1 rgb \<noteq> dim1 img \<and> dim1 rgb \<noteq> 1 \<and> dim1 img \<noteq> 1))
          \<longrightarrow> (\<exists>image. composite rgb img = Inr image))"
  using assms
  by (auto simp: composite_def broadcast2_def broadcast_dim_def ndarray_map_def)

theorem composite_mismatch_broadcast_witness:
  "composite raster_2x2 background_3x3 = Inl ValueError_broadcast
   \<and> (\<exists>image. composite raster_2x2 background_1x1 = Inr image)"
  using composite_mismatch_broadcast [of raster_2x2 background_3x3]
    composite_mismatch_broadcast [of raster_2x2 background_1x1]
  by (simp add: raster_2x2_def background_3x3_def background_1x1_def full_def)

text \<open>
  C8. \<^verbatim>\<open>pop_and_render\<close> with the background omitted, in a session that any sequence of
  calls has led to from the constructor. Constructed without \<^verbatim>\<open>renderOnWhite\<close> (the
  default), the session has no white canvas and the call raises AttributeError, leaving
  the session as it was. Constructed with \<^verbatim>\<open>renderOnWhite\<close> and with a camera pushed, the
  call returns the composite of the raster of the scene against the canvas of height and
  width of the resolution, three channels, every entry 255.
\<close>

theorem pop_and_render_omitted_background:
  assumes "s = run E (Renderer_init E res orig wire renderOnWhite) calls"
  shows "(\<not> renderOnWhite \<longrightarrow> pop_and_render E s None = (Inl AttributeError, s))
       \<and> (renderOnWhite \<and> cam_node s \<noteq> None
            \<longrightarrow> (\<exists>image' s'. pop_and_render E s None = (Inr image', s')
                   \<and> composite (raster_of E s (scene s)) (full (snd res, fst res, 3) 255)
                       = Inr image'))"
proof (intro conjI impI)
  assume "\<not> renderOnWhite"
  with assms have "whiteBackground s = None" by (simp add: run_init_renderer)
  then show "pop_and_render E s None = (Inl AttributeError, s)"
    by (simp add: pop_and_render_def)
next
  assume h: "renderOnWhite \<and> cam_node s \<noteq> None"
  then obtain c where c: "cam_node s = Some c" by auto
  from assms have inv: "session_inv s" by (simp add: run_inv [OF Renderer_init_inv])
  from assms h have w: "effective_background s None = Some (full (snd res, fst res, 3) 255)"
    by (simp add: effective_background_def run_init_renderer)
  from assms have r: "renderer s = res" by (simp add: run_init_renderer)
  from composite_same_shape [of "raster_of E s (scene s)" "full (snd res, fst res, 3) 255"] r
  obtain image' where i: "composite (raster_of E s (scene s)) (full (snd res, fst res, 3) 255)
      = Inr image'"
    by (auto simp: raster_of_def full_def shape_def)
  from pop_and_render_cases [OF inv c, of E None] w i
  show "\<exists>image' s'. pop_and_render E s None = (Inr image', s')
      \<and> composite (raster_of E s (scene s)) (full (snd res, fst res, 3) 255) = Inr image'"
    by auto
qed

theorem pop_and_render_omitted_background_witness:
  "pop_and_render example_env example_pushed None = (Inl AttributeError, example_pushed)
   \<and> (\<exists>image' s'. pop_and_render example_env example_pushed_white None = (Inr image', s')
        \<and> shape image' = (2, 2, 3) \<and> elem image' 0 0 0 = 128 \<and> elem image' 1 1 0 = 255)"
proof -
  have n: "cam_node example_pushed_white \<noteq> None"
    unfolding example_pushed_white_def example_white_def by (rule example_pushed_nodes)
  have r: "renderer example_pushed_white = (2, 2)"
    unfolding example_pushed_white_def example_white_def by (rule run_init_renderer)
  from pop_and_render_omitted_background [of example_pushed example_env "(2, 2)" False False False
      example_calls]
  have a: "pop_and_render example_env example_pushed None = (Inl AttributeError, example_pushed)"
    by (simp add: example_pushed_def example_idle_def)
  from pop_and_render_omitted_background [of example_pushed_white example_env "(2, 2)" False False
      True example_calls] n
  obtain image' s' where p: "pop_and_render example_env example_pushed_white None = (Inr image', s')"
    and c: "composite (raster_of example_env example_pushed_white (scene example_pushed_white))
        (full (snd (2::nat, 2::nat), fst (2::nat, 2::nat), 3) 255) = Inr image'"
    by (auto simp: example_pushed_white_def example_white_def)
  from c have "shape image' = (2, 2, 3) \<and> elem image' 0 0 0 = 128 \<and> elem image' 1 1 0 = 255"
    by (intro example_composite_white) (simp add: example_raster r)
  with a p show ?thesis by blast
qed




text \<open>
  C10. The scene of a new session holds exactly the three light nodes, and after any
  sequence of \<^verbatim>\<open>render\<close>, \<^verbatim>\<open>render_obj\<close>, \<^verbatim>\<open>push_cam\<close>, \<^verbatim>\<open>push_default_cam\<close>,
  \<^verbatim>\<open>push_human\<close>, \<^verbatim>\<open>push_obj\<close>, \<^verbatim>\<open>pop_and_render\<close> and
  \<^verbatim>\<open>screenspace_to_worldspace\<close> calls, with any arguments and whether or not they raise,
  all three are still in the scene.
\<close>

theorem lights_never_removed:
  "nodes (scene (Renderer_init E res orig wire row)) = {light_node 0, light_node 1, light_node 2}
   \<and> {light_node 0, light_node 1, light_node 2}
       \<subseteq> nodes (scene (run E (Renderer_init E res orig wire row) calls))"
proof -
  let ?s0 = "Renderer_init E res orig wire row"
  have n0: "nodes (scene ?s0) = {light_node 0, light_node 1, light_node 2}"
    by (simp add: Renderer_init_scene light_node_def)
  have "\<And>i. light_node i \<in> nodes (scene ?s0) \<Longrightarrow> light_node i \<in> nodes (scene (run E ?s0 calls))"
    using run_inv_lights [OF Renderer_init_inv, of _ E res orig wire row E calls]
    by (simp add: light_node_def)
  with n0 show ?thesis by simp
qed

end
